theory Spec2Isabelle
  imports Main
begin

section \<open>JavaScript values\<close>

text \<open>
  The scraper works on dynamically typed values: whatever \<^verbatim>\<open>JSON.parse\<close> returns for a
  structured-metadata block, and the strings and arrays the extractors build from it.
  Strings are sequences of 8-bit code units; numbers are the integers below
  \<open>2\<^sup>5\<^sup>3\<close> in magnitude, which a double holds exactly and \<^verbatim>\<open>String\<close> writes in plain
  decimal (the code only tests numbers for truthiness and converts them with
  \<^verbatim>\<open>String\<close>).  An object is a plain one:
  it does not shadow \<^verbatim>\<open>toString\<close>.
\<close>

datatype jv =
    JUndefined
  | JNull
  | JBool bool
  | JNum int
  | JStr string
  | JArr "jv list"
  | JObj "(string \<times> jv) list"

text \<open>\<^verbatim>\<open>Boolean(v)\<close>, \<^verbatim>\<open>!v\<close>, \<^verbatim>\<open>v || w\<close>.\<close>

fun truthy :: "jv \<Rightarrow> bool" where
  "truthy JUndefined = False"
| "truthy JNull = False"
| "truthy (JBool b) = b"
| "truthy (JNum n) = (n \<noteq> 0)"
| "truthy (JStr s) = (s \<noteq> [])"
| "truthy (JArr xs) = True"
| "truthy (JObj kvs) = True"

definition js_or :: "jv \<Rightarrow> jv \<Rightarrow> jv" where
  "js_or a b = (if truthy a then a else b)"

fun isArray :: "jv \<Rightarrow> bool" where
  "isArray (JArr xs) = True"
| "isArray v = False"

text \<open>Property read \<^verbatim>\<open>v[k]\<close> / \<^verbatim>\<open>v.k\<close> on a value that is not null or undefined
  (reading from those throws; the callers below guard it or record the throw).  A repeated
  key of a JSON object keeps its last value, which the association list stores under
  the first match.\<close>

fun get_prop :: "jv \<Rightarrow> string \<Rightarrow> jv" where
  "get_prop (JObj kvs) k = (case map_of kvs k of None \<Rightarrow> JUndefined | Some v \<Rightarrow> v)"
| "get_prop v k = JUndefined"

text \<open>Decimal rendering of an integral number.\<close>

function digits :: "nat \<Rightarrow> string" where
  "digits n = (if n < 10 then [char_of (48 + n)] else digits (n div 10) @ [char_of (48 + n mod 10)])"
  by pat_completeness auto
termination
  by (relation "measure id") auto

definition show_int :: "int \<Rightarrow> string" where
  "show_int i = (if i < 0 then CHR ''-'' # digits (nat (- i)) else digits (nat i))"

fun intercalate :: "string \<Rightarrow> string list \<Rightarrow> string" where
  "intercalate sep [] = []"
| "intercalate sep [x] = x"
| "intercalate sep (x # y # ys) = x @ sep @ intercalate sep (y # ys)"

text \<open>\<^verbatim>\<open>String(v)\<close>: an array joins its elements with a comma, null and undefined
  elements as the empty string; a plain object is \<^verbatim>\<open>[object Object]\<close>.\<close>

fun to_string :: "jv \<Rightarrow> string" where
  "to_string JUndefined = ''undefined''"
| "to_string JNull = ''null''"
| "to_string (JBool b) = (if b then ''true'' else ''false'')"
| "to_string (JNum n) = show_int n"
| "to_string (JStr s) = s"
| "to_string (JArr xs) =
     intercalate '','' (map (\<lambda>x. if x = JUndefined \<or> x = JNull then [] else to_string x) xs)"
| "to_string (JObj kvs) = ''[object Object]''"

section \<open>Helpers of main.js\<close>

text \<open>The white space of \<^verbatim>\<open>\s\<close> and of \<^verbatim>\<open>trim\<close> among 8-bit code units: tab, line feed,
  vertical tab, form feed, carriage return, space, no-break space.\<close>

definition is_space :: "char \<Rightarrow> bool" where
  "is_space c = (of_char c \<in> {9, 10, 11, 12, 13, 32, 160 :: nat})"

text \<open>\<^verbatim>\<open>s.replace(/\s+/g, ' ')\<close>: every maximal run of white space becomes one space.\<close>

function collapse_ws :: "string \<Rightarrow> string" where
  "collapse_ws [] = []"
| "collapse_ws (c # cs) =
     (if is_space c then CHR '' '' # collapse_ws (dropWhile is_space cs)
      else c # collapse_ws cs)"
  by pat_completeness auto
termination
  by (relation "measure length") (auto simp: length_dropWhile_le less_Suc_eq_le)

definition trim :: "string \<Rightarrow> string" where
  "trim s = rev (dropWhile is_space (rev (dropWhile is_space s)))"

text \<open>
  \<^verbatim>\<open>const normalize = (value) => {
    if (!value) return null;
    if (Array.isArray(value)) return value.map(normalize).filter(Boolean);
    return String(value).replace(/\s+/g, ' ').trim() || null; }\<close>
\<close>

definition normalize_text :: "string \<Rightarrow> jv" where
  "normalize_text s = (let t = trim (collapse_ws s) in if t = [] then JNull else JStr t)"

fun normalize :: "jv \<Rightarrow> jv" where
  "normalize (JArr xs) = JArr (filter truthy (map normalize xs))"
| "normalize v = (if \<not> truthy v then JNull else normalize_text (to_string v))"

text \<open>\<^verbatim>\<open>const arrify = (value) => { if (!value) return [];
  return Array.isArray(value) ? value : [value]; }\<close>\<close>

fun arrify :: "jv \<Rightarrow> jv list" where
  "arrify (JArr xs) = xs"
| "arrify v = (if truthy v then [v] else [])"

text \<open>
  The members of the arrays that the code passes to \<^verbatim>\<open>uniq\<close>.  A \<^verbatim>\<open>Set\<close> compares
  primitives by value and arrays and objects by reference, so a member that is an array
  or an object is known by the address of the object, which stays with it when the
  member is copied from one array into another (\<^verbatim>\<open>[...merged.tags, ...extra.tags]\<close>).
  The only arrays that become members are the ones \<^verbatim>\<open>normalize\<close> returns for an array,
  each a new object: its address is the page load whose extraction built it, the list it
  was pushed onto and its position among the values pushed.
\<close>

datatype address = Address nat string nat

datatype elem = Prim jv | Obj address jv

fun is_prim :: "jv \<Rightarrow> bool" where
  "is_prim (JArr xs) = False"
| "is_prim (JObj kvs) = False"
| "is_prim v = True"

fun value_of :: "elem \<Rightarrow> jv" where
  "value_of (Prim v) = v"
| "value_of (Obj a v) = v"

fun truthy_elem :: "elem \<Rightarrow> bool" where
  "truthy_elem (Prim v) = truthy v"
| "truthy_elem (Obj a v) = True"

definition elem_at :: "address \<Rightarrow> jv \<Rightarrow> elem" where
  "elem_at a v = (if is_prim v then Prim v else Obj a v)"

text \<open>The values pushed onto a new list, as its members.\<close>

definition elems :: "nat \<Rightarrow> string \<Rightarrow> jv list \<Rightarrow> elem list" where
  "elems origin field vs =
     map (\<lambda>iv. elem_at (Address origin field (fst iv)) (snd iv)) (enumerate 0 vs)"

text \<open>
  \<^verbatim>\<open>const uniq = (list) => [...new Set(list.filter(Boolean))];\<close>

  A \<^verbatim>\<open>Set\<close> keeps the first occurrence of each member in insertion order.
\<close>

fun same_value_zero :: "elem \<Rightarrow> elem \<Rightarrow> bool" where
  "same_value_zero (Prim v) (Prim w) = (v = w)"
| "same_value_zero (Obj a v) (Obj b w) = (a = b)"
| "same_value_zero x y = False"

fun set_insert :: "elem list \<Rightarrow> elem list \<Rightarrow> elem list" where
  "set_insert acc [] = acc"
| "set_insert acc (x # xs) =
     (if list_ex (\<lambda>y. same_value_zero y x) acc then set_insert acc xs
      else set_insert (acc @ [x]) xs)"

definition uniq :: "elem list \<Rightarrow> elem list" where
  "uniq xs = set_insert [] (filter truthy_elem xs)"

text \<open>What the code can throw.\<close>

datatype js_error = SyntaxError | TypeError | RangeError

section \<open>Partial records and the record merger\<close>

text \<open>
  A recipe object as the extractors build it: sixteen scalar properties read and written
  by name (\<^verbatim>\<open>merged[field]\<close>), three list properties and the nutrition blob.  A scalar
  property that the object lacks reads as \<^verbatim>\<open>undefined\<close>; a list property that the object
  lacks (the object \<^verbatim>\<open>{}\<close>) is \<open>None\<close>.
\<close>

record recipe =
  scalars :: "string \<rightharpoonup> jv"
  ingredients :: "elem list option"
  instructions :: "elem list option"
  tags :: "elem list option"
  nutrition :: jv

definition empty_recipe :: recipe where
  "empty_recipe =
     \<lparr>scalars = Map.empty, ingredients = None, instructions = None, tags = None,
      nutrition = JUndefined\<rparr>"

definition scalar :: "recipe \<Rightarrow> string \<Rightarrow> jv" where
  "scalar r f = (case scalars r f of None \<Rightarrow> JUndefined | Some v \<Rightarrow> v)"

text \<open>The array \<^verbatim>\<open>fields\<close> of \<^verbatim>\<open>mergeRecipe\<close>.\<close>

definition scalar_fields :: "string list" where
  "scalar_fields =
     [''title'', ''author'', ''description'', ''prep_time'', ''cook_time'', ''total_time'',
      ''servings'', ''image_url'', ''cuisine'', ''category'', ''difficulty'',
      ''date_published'', ''rating_value'', ''rating_count'', ''rating_best'',
      ''rating_worst'']"

text \<open>\<^verbatim>\<open>if (!merged[field] && extra[field]) merged[field] = extra[field];\<close>\<close>

definition merge_field :: "recipe \<Rightarrow> recipe \<Rightarrow> string \<Rightarrow> recipe" where
  "merge_field extra merged field =
     (if \<not> truthy (scalar merged field) \<and> truthy (scalar extra field)
      then merged\<lparr>scalars := (scalars merged)(field \<mapsto> scalar extra field)\<rparr>
      else merged)"

text \<open>\<^verbatim>\<open>extra.ingredients?.length\<close> as a condition, and \<^verbatim>\<open>merged.ingredients || []\<close>.\<close>

fun has_length :: "'a list option \<Rightarrow> bool" where
  "has_length None = False"
| "has_length (Some xs) = (xs \<noteq> [])"

fun or_empty :: "'a list option \<Rightarrow> 'a list" where
  "or_empty None = []"
| "or_empty (Some xs) = xs"

definition merge_list :: "elem list option \<Rightarrow> elem list option \<Rightarrow> elem list option" where
  "merge_list mine theirs =
     (if has_length theirs then Some (uniq (or_empty mine @ or_empty theirs)) else mine)"

text \<open>
  \<^verbatim>\<open>const mergeRecipe = (base, extra) => {
    if (!extra) return base || {};
    const merged = { ...(base || {}) };
    for (const field of fields) { ... }
    if (extra.ingredients?.length) {
        merged.ingredients = uniq([...(merged.ingredients || []), ...extra.ingredients]); }
    ... instructions, tags likewise ...
    if (extra.nutrition && !merged.nutrition) merged.nutrition = extra.nutrition;
    return merged; }\<close>

  \<open>None\<close> is a \<^verbatim>\<open>null\<close> argument.
\<close>

definition mergeRecipe :: "recipe option \<Rightarrow> recipe option \<Rightarrow> recipe" where
  "mergeRecipe base extra =
     (case extra of
        None \<Rightarrow> (case base of None \<Rightarrow> empty_recipe | Some b \<Rightarrow> b)
      | Some e \<Rightarrow>
          let merged0 = (case base of None \<Rightarrow> empty_recipe | Some b \<Rightarrow> b);
              merged1 = foldl (merge_field e) merged0 scalar_fields
          in merged1
               \<lparr>ingredients := merge_list (ingredients merged1) (ingredients e),
                instructions := merge_list (instructions merged1) (instructions e),
                tags := merge_list (tags merged1) (tags e),
                nutrition :=
                  (if truthy (nutrition e) \<and> \<not> truthy (nutrition merged1)
                   then nutrition e else nutrition merged1)\<rparr>)"

text \<open>\<^verbatim>\<open>const hasCoreRecipeData = (recipe) =>
  Boolean(recipe?.title && recipe?.ingredients?.length && recipe?.instructions?.length);\<close>\<close>

definition hasCoreRecipeData :: "recipe \<Rightarrow> bool" where
  "hasCoreRecipeData r \<longleftrightarrow>
     truthy (scalar r ''title'') \<and> has_length (ingredients r) \<and> has_length (instructions r)"

text \<open>A fresh member: no member of the list is the same to a \<^verbatim>\<open>Set\<close>.\<close>

definition fresh :: "elem list \<Rightarrow> elem \<Rightarrow> bool" where
  "fresh acc x \<longleftrightarrow> \<not> list_ex (\<lambda>y. same_value_zero y x) acc"

text \<open>A list without repetition, as a \<^verbatim>\<open>Set\<close> sees it.\<close>

fun dup_free :: "elem list \<Rightarrow> bool" where
  "dup_free [] = True"
| "dup_free (x # xs) = (fresh xs x \<and> dup_free xs)"

text \<open>
  The invariant of a list of a partial record: it holds no falsy member (every list of
  the program has passed \<^verbatim>\<open>filter(Boolean)\<close>) and no member twice.
\<close>

definition list_ok :: "elem list \<Rightarrow> bool" where
  "list_ok xs \<longleftrightarrow> list_all truthy_elem xs \<and> dup_free xs"

definition partial_record :: "recipe \<Rightarrow> bool" where
  "partial_record r \<longleftrightarrow>
     list_ok (or_empty (ingredients r)) \<and> list_ok (or_empty (instructions r))
     \<and> list_ok (or_empty (tags r))"



section \<open>Alternate endpoints\<close>

text \<open>\<^verbatim>\<open>uniq\<close> on an array of strings.\<close>

definition uniq_str :: "string list \<Rightarrow> string list" where
  "uniq_str xs = map (\<lambda>x. to_string (value_of x)) (uniq (map (\<lambda>s. Prim (JStr s)) xs))"

text \<open>\<^verbatim>\<open>s.split(c)[0]\<close>: the part of \<open>s\<close> before the first \<open>c\<close>.\<close>

definition before :: "char \<Rightarrow> string \<Rightarrow> string" where
  "before c s = takeWhile (\<lambda>x. x \<noteq> c) s"

text \<open>\<^verbatim>\<open>s.replace(/\/$/, '')\<close>: one slash at the very end is removed.\<close>

definition strip_slash :: "string \<Rightarrow> string" where
  "strip_slash s = (if s \<noteq> [] \<and> last s = CHR ''/'' then butlast s else s)"

text \<open>
  \<^verbatim>\<open>const buildAlternateDetailUrls = (url) => {
    const cleaned = url.split('?')[0].replace(/\/$/, '');
    const alternates = [cleaned, `${cleaned}?output=1`, `${cleaned}?page=all`, `${cleaned}/amp`];
    return uniq(alternates); }\<close>
\<close>

definition cleaned :: "string \<Rightarrow> string" where
  "cleaned url = strip_slash (before CHR ''?'' url)"

definition buildAlternateDetailUrls :: "string \<Rightarrow> string list" where
  "buildAlternateDetailUrls url =
     uniq_str [cleaned url, cleaned url @ ''?output=1'', cleaned url @ ''?page=all'',
               cleaned url @ ''/amp'']"

section \<open>Structured metadata\<close>

text \<open>
  \<^verbatim>\<open>JSON.parse\<close> is the platform's: the functions below take it as \<open>parse\<close>, which
  gives \<open>None\<close> where \<^verbatim>\<open>JSON.parse\<close> throws.  A page is given by the text contents of its
  \<^verbatim>\<open>script[type="application/ld+json"]\<close> elements, in document order.
\<close>

text \<open>The body of the \<^verbatim>\<open>try\<close>: what one block appends to \<^verbatim>\<open>parsed\<close>.
  \<^verbatim>\<open>json?.['@graph']\<close> is \<^verbatim>\<open>undefined\<close> for \<^verbatim>\<open>null\<close> and for a primitive.\<close>

definition ld_nodes :: "jv \<Rightarrow> jv list" where
  "ld_nodes json =
     (case json of
        JArr xs \<Rightarrow> xs
      | _ \<Rightarrow> if truthy (get_prop json ''@graph'') then arrify (get_prop json ''@graph'')
             else [json])"

definition try_block :: "(string \<Rightarrow> jv option) \<Rightarrow> jv list \<Rightarrow> string \<Rightarrow> js_error + jv list" where
  "try_block parse parsed raw =
     (case parse raw of
        None \<Rightarrow> Inl SyntaxError
      | Some json \<Rightarrow> Inr (parsed @ ld_nodes json))"

text \<open>One round of the \<^verbatim>\<open>each\<close> callback: an empty text returns at once, a throw in the
  \<^verbatim>\<open>try\<close> is caught and leaves \<^verbatim>\<open>parsed\<close> as it was.\<close>

definition each_script :: "(string \<Rightarrow> jv option) \<Rightarrow> jv list \<Rightarrow> string \<Rightarrow> jv list" where
  "each_script parse parsed raw =
     (if raw = [] then parsed
      else case try_block parse parsed raw of Inl e \<Rightarrow> parsed | Inr parsed' \<Rightarrow> parsed')"

definition parseJsonLdScripts :: "(string \<Rightarrow> jv option) \<Rightarrow> string list \<Rightarrow> jv list" where
  "parseJsonLdScripts parse blocks = foldl (each_script parse) [] blocks"

text \<open>
  \<^verbatim>\<open>const collectInstructionLines = (instructions) => {
    const steps = [];
    const walk = (node) => {
        if (!node) return;
        if (Array.isArray(node)) { node.forEach(walk); return; }
        if (typeof node === 'string') {
            const clean = normalize(node); if (clean) steps.push(clean); return; }
        if (typeof node === 'object') {
            if (node.text || node.description) {
                const text = normalize(node.text || node.description);
                if (text) steps.push(text); }
            if (node.itemListElement) walk(node.itemListElement); } };
    walk(instructions);
    return uniq(steps); }\<close>

  \<^verbatim>\<open>walk\<close> and \<^verbatim>\<open>normalize\<close> recurse on the call stack of the engine, and the source
  carries no depth counter of its own: a call that finds the stack used up throws
  \<^verbatim>\<open>RangeError\<close>, which ends the whole walk (the handler's \<^verbatim>\<open>try\<close> catches it).  The
  first argument of the functions below is the number of nested calls the stack still
  holds; each level of the recursion takes one.
\<close>

text \<open>A loop over the elements that stops at the first throw.\<close>

fun each_result :: "('a \<Rightarrow> js_error + 'b) \<Rightarrow> 'a list \<Rightarrow> js_error + 'b list" where
  "each_result f [] = Inr []"
| "each_result f (x # xs) =
     (case f x of
        Inl e \<Rightarrow> Inl e
      | Inr y \<Rightarrow> (case each_result f xs of Inl e \<Rightarrow> Inl e | Inr ys \<Rightarrow> Inr (y # ys)))"

text \<open>\<^verbatim>\<open>normalize\<close> as a call with \<open>d\<close> levels of stack left.\<close>

fun normalize_at :: "nat \<Rightarrow> jv \<Rightarrow> js_error + jv" where
  "normalize_at 0 v = Inl RangeError"
| "normalize_at (Suc d) (JArr xs) =
     (case each_result (normalize_at d) xs of
        Inl e \<Rightarrow> Inl e
      | Inr ys \<Rightarrow> Inr (JArr (filter truthy ys)))"
| "normalize_at (Suc d) v =
     Inr (if \<not> truthy v then JNull else normalize_text (to_string v))"

text \<open>\<^verbatim>\<open>if (v) steps.push(v)\<close> and \<^verbatim>\<open>node.text || node.description\<close>.\<close>

definition push_if :: "jv \<Rightarrow> jv list" where
  "push_if v = (if truthy v then [v] else [])"

definition text_of :: "jv \<Rightarrow> jv" where
  "text_of node = js_or (get_prop node ''text'') (get_prop node ''description'')"

text \<open>\<open>walk d node\<close> is what the call pushes onto \<^verbatim>\<open>steps\<close>, in order, with \<open>d\<close> levels of
  stack left.\<close>

fun walk :: "nat \<Rightarrow> jv \<Rightarrow> js_error + jv list" where
  "walk 0 node = Inl RangeError"
| "walk (Suc d) (JArr xs) =
     (case each_result (walk d) xs of Inl e \<Rightarrow> Inl e | Inr yss \<Rightarrow> Inr (concat yss))"
| "walk (Suc d) (JStr s) =
     (if s = [] then Inr []
      else (case normalize_at d (JStr s) of
              Inl e \<Rightarrow> Inl e
            | Inr clean \<Rightarrow> Inr (push_if clean)))"
| "walk (Suc d) (JObj kvs) =
     (case (if truthy (text_of (JObj kvs))
            then (case normalize_at d (text_of (JObj kvs)) of
                    Inl e \<Rightarrow> Inl e
                  | Inr text \<Rightarrow> Inr (push_if text))
            else Inr []) of
        Inl e \<Rightarrow> Inl e
      | Inr own \<Rightarrow>
          (case map_of kvs ''itemListElement'' of
             None \<Rightarrow> Inr own
           | Some e \<Rightarrow>
               if truthy e
               then (case walk d e of Inl er \<Rightarrow> Inl er | Inr below \<Rightarrow> Inr (own @ below))
               else Inr own))"
| "walk (Suc d) v = Inr []"

text \<open>The steps are the members of a new list of the page load \<open>origin\<close>.\<close>

definition collectInstructionLines :: "nat \<Rightarrow> nat \<Rightarrow> jv \<Rightarrow> js_error + elem list" where
  "collectInstructionLines origin stack instr =
     (case walk stack instr of
        Inl e \<Rightarrow> Inl e
      | Inr steps \<Rightarrow> Inr (uniq (elems origin ''instructions'' steps)))"

text \<open>An entry wrapped in \<open>n\<close> nested one-element arrays.\<close>

fun nest :: "nat \<Rightarrow> jv \<Rightarrow> jv" where
  "nest 0 v = v"
| "nest (Suc n) v = JArr [nest n v]"




section \<open>Locators and link discovery\<close>

text \<open>
  \<^verbatim>\<open>const toAbs = (href, base = 'https://www.epicurious.com') => {
    try { return new URL(href, base).href.split('#')[0]; } catch { return null; } };\<close>

  \<^verbatim>\<open>new URL(href, base).href\<close> is the platform's URL parser and serialiser: the functions
  below take it as \<open>resolve\<close>, which gives \<open>None\<close> where the constructor throws.
\<close>

type_synonym resolver = "string \<Rightarrow> string \<Rightarrow> string option"

definition toAbs :: "resolver \<Rightarrow> string \<Rightarrow> string \<Rightarrow> string option" where
  "toAbs resolve href base =
     (case resolve href base of None \<Rightarrow> None | Some h \<Rightarrow> Some (before CHR ''#'' h))"

text \<open>\<^verbatim>\<open>/\/recipes\/food\/views\//.test(url)\<close>: the path pattern occurs somewhere in the string.\<close>

fun contains :: "string \<Rightarrow> string \<Rightarrow> bool" where
  "contains sub [] = (sub = [])"
| "contains sub (c # cs) = (take (length sub) (c # cs) = sub \<or> contains sub cs)"

definition is_recipe_url :: "string \<Rightarrow> bool" where
  "is_recipe_url url = contains ''/recipes/food/views/'' url"

text \<open>\<^verbatim>\<open>const type = node['@type'] || node.type;
  type === T || (Array.isArray(type) && type.includes(T))\<close>\<close>

definition has_type :: "string \<Rightarrow> jv \<Rightarrow> bool" where
  "has_type T node =
     (let type = js_or (get_prop node ''@type'') (get_prop node ''type'')
      in type = JStr T \<or> (case type of JArr ts \<Rightarrow> JStr T \<in> set ts | _ \<Rightarrow> False))"

text \<open>
  \<^verbatim>\<open>const extractListLinks = (jsonNodes, base) => {
    const urls = [];
    for (const node of jsonNodes) {
        if (!node) continue;
        const type = node['@type'] || node.type;
        const isItemList = type === 'ItemList' || (Array.isArray(type) && type.includes('ItemList'));
        if (isItemList && Array.isArray(node.itemListElement)) {
            for (const entry of node.itemListElement) {
                const raw = entry.url || entry.item?.url;
                const url = toAbs(raw, base);
                if (url && /\/recipes\/food\/views\//.test(url)) urls.push(url); } } }
    return urls; }\<close>

  Reading \<^verbatim>\<open>entry.url\<close> from a \<^verbatim>\<open>null\<close> entry throws; the URL constructor converts its
  argument with \<^verbatim>\<open>String\<close>.
\<close>

definition entry_raw :: "jv \<Rightarrow> js_error + jv" where
  "entry_raw entry =
     (if entry = JNull \<or> entry = JUndefined then Inl TypeError
      else Inr (js_or (get_prop entry ''url'')
                 (let item = get_prop entry ''item''
                  in if item = JNull \<or> item = JUndefined then JUndefined
                     else get_prop item ''url'')))"

fun list_entries :: "resolver \<Rightarrow> string \<Rightarrow> string list \<Rightarrow> jv list \<Rightarrow> js_error + string list" where
  "list_entries resolve base urls [] = Inr urls"
| "list_entries resolve base urls (entry # es) =
     (case entry_raw entry of
        Inl e \<Rightarrow> Inl e
      | Inr raw \<Rightarrow>
          (case toAbs resolve (to_string raw) base of
             None \<Rightarrow> list_entries resolve base urls es
           | Some url \<Rightarrow>
               if url \<noteq> [] \<and> is_recipe_url url
               then list_entries resolve base (urls @ [url]) es
               else list_entries resolve base urls es))"

fun list_nodes :: "resolver \<Rightarrow> string \<Rightarrow> string list \<Rightarrow> jv list \<Rightarrow> js_error + string list" where
  "list_nodes resolve base urls [] = Inr urls"
| "list_nodes resolve base urls (node # ns) =
     (if \<not> truthy node then list_nodes resolve base urls ns
      else if has_type ''ItemList'' node \<and> isArray (get_prop node ''itemListElement'')
      then (case list_entries resolve base urls (arrify (get_prop node ''itemListElement'')) of
              Inl e \<Rightarrow> Inl e
            | Inr urls' \<Rightarrow> list_nodes resolve base urls' ns)
      else list_nodes resolve base urls ns)"

definition extractListLinks :: "resolver \<Rightarrow> jv list \<Rightarrow> string \<Rightarrow> js_error + string list" where
  "extractListLinks resolve jsonNodes base = list_nodes resolve base [] jsonNodes"

text \<open>
  \<^verbatim>\<open>const findRecipeLinks = ($, base) => {
    const urls = new Set();
    $('a[href*="/recipes/food/views/"], [data-link-type="recipe"] a, .recipe-card a').each((_, el) => {
        const href = $(el).attr('href');
        const abs = href ? toAbs(href, base) : null;
        if (!abs) return;
        if (/\/recipes\/food\/views\//.test(abs)) {
            const clean = abs.split('?')[0];
            if (!seenUrls || !seenUrls.has(clean)) {
                urls.add(clean);
                if (seenUrls) seenUrls.add(clean); } } });
    return [...urls]; };\<close>

  The page gives the \<^verbatim>\<open>href\<close> attribute of each matched element, in document order
  (\<open>None\<close> for an element without one).  \<^verbatim>\<open>seenUrls\<close> is \<open>None\<close> when \<^verbatim>\<open>dedupe\<close> is off.
\<close>

definition link_step ::
  "resolver \<Rightarrow> string \<Rightarrow> string list \<times> string set option \<Rightarrow> string option
   \<Rightarrow> string list \<times> string set option" where
  "link_step resolve base acc el =
     (case el of
        None \<Rightarrow> acc
      | Some href \<Rightarrow>
          if href = [] then acc
          else (case toAbs resolve href base of
                  None \<Rightarrow> acc
                | Some a \<Rightarrow>
                    if a = [] \<or> \<not> is_recipe_url a then acc
                    else let clean = before CHR ''?'' a in
                      (case snd acc of
                         None \<Rightarrow> (if clean \<in> set (fst acc) then fst acc else fst acc @ [clean], None)
                       | Some seen \<Rightarrow>
                           if clean \<in> seen then acc
                           else (if clean \<in> set (fst acc) then fst acc else fst acc @ [clean],
                                 Some (insert clean seen)))))"

definition findRecipeLinks ::
  "resolver \<Rightarrow> string set option \<Rightarrow> string option list \<Rightarrow> string
   \<Rightarrow> string list \<times> string set option" where
  "findRecipeLinks resolve seenUrls anchors base =
     foldl (link_step resolve base) ([], seenUrls) anchors"

text \<open>
  \<^verbatim>\<open>const findNextPage = ($, base) => {
    const rel = $('a[rel="next"]').attr('href');
    if (rel) return toAbs(rel, base);
    const aria = $('a[aria-label*="next"], a[data-testid*="next"]').first().attr('href') ||
        $('button[aria-label*="next"]').parent('a').attr('href');
    if (aria) return toAbs(aria, base);
    const textNext = $('a').filter(...).first().attr('href');
    if (textNext) return toAbs(textNext, base);
    return null; };\<close>

  The page gives the four attribute values the selectors find.
\<close>

record next_links =
  next_rel :: "string option"
  next_aria :: "string option"
  next_button :: "string option"
  next_text :: "string option"

text \<open>An attribute value as a condition: present and not the empty string.\<close>

definition truthy_attr :: "string option \<Rightarrow> string option" where
  "truthy_attr a = (case a of None \<Rightarrow> None | Some s \<Rightarrow> if s = [] then None else Some s)"

definition findNextPage :: "resolver \<Rightarrow> next_links \<Rightarrow> string \<Rightarrow> string option" where
  "findNextPage resolve n base =
     (case truthy_attr (next_rel n) of
        Some rel \<Rightarrow> toAbs resolve rel base
      | None \<Rightarrow>
          (case truthy_attr
                  (case truthy_attr (next_aria n) of Some a \<Rightarrow> Some a | None \<Rightarrow> next_button n) of
             Some aria \<Rightarrow> toAbs resolve aria base
           | None \<Rightarrow>
               (case truthy_attr (next_text n) of
                  Some textNext \<Rightarrow> toAbs resolve textNext base
                | None \<Rightarrow> None)))"

section \<open>Detail extraction\<close>

text \<open>\<^verbatim>\<open>xs.join(sep)\<close>: null and undefined elements join as the empty string.\<close>

definition js_join :: "string \<Rightarrow> jv list \<Rightarrow> string" where
  "js_join sep xs =
     intercalate sep (map (\<lambda>x. if x = JUndefined \<or> x = JNull then [] else to_string x) xs)"

text \<open>\<^verbatim>\<open>s.split(',')\<close>.\<close>

fun split_on :: "char \<Rightarrow> string \<Rightarrow> string list" where
  "split_on c [] = [[]]"
| "split_on c (x # xs) =
     (if x = c then [] # split_on c xs
      else (case split_on c xs of [] \<Rightarrow> [[x]] | w # ws \<Rightarrow> (x # w) # ws))"

text \<open>\<^verbatim>\<open>v?.k\<close>.\<close>

definition opt_prop :: "jv \<Rightarrow> string \<Rightarrow> jv" where
  "opt_prop v k = (if v = JNull \<or> v = JUndefined then JUndefined else get_prop v k)"

text \<open>\<^verbatim>\<open>typeof v === 'object'\<close>: also true of \<^verbatim>\<open>null\<close> and of an array.\<close>

fun typeof_object :: "jv \<Rightarrow> bool" where
  "typeof_object JNull = True"
| "typeof_object (JArr xs) = True"
| "typeof_object (JObj kvs) = True"
| "typeof_object v = False"

text \<open>
  \<^verbatim>\<open>const pickImage = (image) => {
    if (!image) return null;
    if (typeof image === 'string') return image;
    if (Array.isArray(image)) {
        for (const img of image) {
            const candidate = pickImage(img);
            if (candidate) return candidate; } }
    if (typeof image === 'object') return image.url || image['@id'] || null;
    return null; };\<close>

  An array without a truthy candidate falls through to the object case, where it has
  neither property.
\<close>

fun pickImage :: "jv \<Rightarrow> jv" where
  "pickImage (JArr imgs) =
     (case find truthy (map pickImage imgs) of Some candidate \<Rightarrow> candidate | None \<Rightarrow> JNull)"
| "pickImage (JStr s) = (if s = [] then JNull else JStr s)"
| "pickImage (JObj kvs) =
     js_or (js_or (get_prop (JObj kvs) ''url'') (get_prop (JObj kvs) ''@id'')) JNull"
| "pickImage v = JNull"

text \<open>The argument of \<^verbatim>\<open>normalize\<close> for the author.  Reading \<^verbatim>\<open>a.name\<close> from a
  \<^verbatim>\<open>null\<close> element of an author array throws.\<close>

fun author_names :: "jv list \<Rightarrow> js_error + jv list" where
  "author_names [] = Inr []"
| "author_names (a # as) =
     (if a = JNull then Inl TypeError
      else (case author_names as of
              Inl e \<Rightarrow> Inl e
            | Inr ns \<Rightarrow> Inr ((if typeof_object a then get_prop a ''name'' else a) # ns)))"

definition author_value :: "jv \<Rightarrow> js_error + jv" where
  "author_value author =
     (case author of
        JArr as \<Rightarrow> (case author_names as of
                     Inl e \<Rightarrow> Inl e
                   | Inr ns \<Rightarrow> Inr (JStr (js_join '', '' ns)))
      | _ \<Rightarrow> Inr (if typeof_object author then opt_prop author ''name'' else author))"

definition keywords_of :: "jv \<Rightarrow> jv list" where
  "keywords_of kw =
     (if truthy kw
      then (case kw of JArr ks \<Rightarrow> ks | _ \<Rightarrow> map JStr (split_on CHR '','' (to_string kw)))
      else [])"

text \<open>\<^verbatim>\<open>arrify(v)[0]\<close>.\<close>

definition first_of :: "jv list \<Rightarrow> jv" where
  "first_of xs = (case xs of [] \<Rightarrow> JUndefined | x # _ \<Rightarrow> x)"

text \<open>The object literal that \<^verbatim>\<open>extractRecipeFromJsonLd\<close> returns for the item it picks:
  the instructions are collected first, the author is read inside the literal.  \<open>origin\<close>
  is the page load and \<open>stack\<close> the stack left for the walk.\<close>

definition recipe_of_item :: "nat \<Rightarrow> nat \<Rightarrow> jv \<Rightarrow> js_error + recipe" where
  "recipe_of_item origin stack item =
     (case collectInstructionLines origin stack (get_prop item ''recipeInstructions'') of
        Inl e \<Rightarrow> Inl e
      | Inr steps \<Rightarrow>
     (case author_value (get_prop item ''author'') of
        Inl e \<Rightarrow> Inl e
      | Inr author \<Rightarrow>
          let rating = get_prop item ''aggregateRating'';
              cuisine = arrify (get_prop item ''recipeCuisine'');
              category = arrify (get_prop item ''recipeCategory'')
          in Inr
            \<lparr>scalars =
               [''title'' \<mapsto> normalize (get_prop item ''name''),
                ''author'' \<mapsto> normalize author,
                ''description'' \<mapsto> normalize (get_prop item ''description''),
                ''prep_time'' \<mapsto> normalize (get_prop item ''prepTime''),
                ''cook_time'' \<mapsto> normalize (get_prop item ''cookTime''),
                ''total_time'' \<mapsto> normalize (get_prop item ''totalTime''),
                ''servings'' \<mapsto> normalize (get_prop item ''recipeYield''),
                ''image_url'' \<mapsto> pickImage (get_prop item ''image''),
                ''cuisine'' \<mapsto> normalize (first_of cuisine),
                ''category'' \<mapsto> normalize (first_of category),
                ''difficulty'' \<mapsto>
                   (if truthy (opt_prop rating ''ratingValue'')
                    then JStr (''Rated '' @ to_string (opt_prop rating ''ratingValue''))
                    else JNull),
                ''date_published'' \<mapsto> normalize (get_prop item ''datePublished''),
                ''rating_value'' \<mapsto> js_or (opt_prop rating ''ratingValue'') JNull,
                ''rating_count'' \<mapsto>
                   js_or (js_or (opt_prop rating ''ratingCount'') (opt_prop rating ''reviewCount''))
                     JNull,
                ''rating_best'' \<mapsto> js_or (opt_prop rating ''bestRating'') JNull,
                ''rating_worst'' \<mapsto> js_or (opt_prop rating ''worstRating'') JNull],
             ingredients =
               Some (elems origin ''ingredients''
                 (filter truthy (map normalize (arrify (get_prop item ''recipeIngredient''))))),
             instructions = Some steps,
             tags =
               Some (filter truthy_elem
                 (uniq (elems origin ''tags''
                   (map normalize cuisine @ map normalize category
                    @ map normalize (keywords_of (get_prop item ''keywords'')))))),
             nutrition = js_or (get_prop item ''nutrition'') JNull\<rparr>))"

text \<open>
  \<^verbatim>\<open>const extractRecipeFromJsonLd = (jsonNodes) => {
    for (const node of jsonNodes) {
        if (!node) continue;
        const possible = Array.isArray(node) ? node : [node];
        for (const item of possible) {
            const type = item?.['@type'] || item?.type;
            const isRecipe = type === 'Recipe' || (Array.isArray(type) && type.includes('Recipe'));
            if (!isRecipe) continue;
            ... return { title: normalize(item.name), ... }; } }
    return null; };\<close>

  The first item with the type, in the order of the two loops, decides the result.
\<close>

definition possible :: "jv \<Rightarrow> jv list" where
  "possible node = (case node of JArr xs \<Rightarrow> xs | _ \<Rightarrow> [node])"

definition extractRecipeFromJsonLd :: "nat \<Rightarrow> nat \<Rightarrow> jv list \<Rightarrow> js_error + recipe option" where
  "extractRecipeFromJsonLd origin stack jsonNodes =
     (case find (has_type ''Recipe'') (concat (map possible (filter truthy jsonNodes))) of
        None \<Rightarrow> Inr None
      | Some item \<Rightarrow>
          (case recipe_of_item origin stack item of Inl e \<Rightarrow> Inl e | Inr r \<Rightarrow> Inr (Some r)))"

text \<open>
  What the selectors of \<^verbatim>\<open>parseHtmlRecipe\<close> find in the markup of a page: the text of the
  first match (the empty string without a match), an attribute (\<open>None\<close> without one), or
  the texts of all matches in document order.
\<close>

record markup =
  h1_text :: string
  hed_text :: string
  author_text :: string
  byline_text :: string
  dek_text :: string
  meta_description :: "string option"
  servings_text :: string
  meta_yield :: "string option"
  ingredient_texts :: "string list"
  instruction_texts :: "string list"
  prep_itemprop_text :: string
  prep_text :: string
  cook_itemprop_text :: string
  cook_text :: string
  total_itemprop_text :: string
  total_text :: string
  og_image :: "string option"
  img_src :: "string option"
  tag_texts :: "string list"

definition attr_value :: "string option \<Rightarrow> jv" where
  "attr_value a = (case a of None \<Rightarrow> JUndefined | Some s \<Rightarrow> JStr s)"

text \<open>\<^verbatim>\<open>const text = normalize($(el).text()); if (text) list.push(text);\<close> over all matches:
  the members are strings.\<close>

definition texts_of :: "string list \<Rightarrow> elem list" where
  "texts_of ts = map Prim (filter truthy (map (\<lambda>t. normalize (JStr t)) ts))"

definition parseHtmlRecipe :: "markup \<Rightarrow> recipe" where
  "parseHtmlRecipe m =
     \<lparr>scalars =
        [''title'' \<mapsto> js_or (normalize (JStr (h1_text m))) (normalize (JStr (hed_text m))),
         ''author'' \<mapsto> js_or (normalize (JStr (author_text m))) (normalize (JStr (byline_text m))),
         ''description'' \<mapsto>
            js_or (normalize (JStr (dek_text m))) (normalize (attr_value (meta_description m))),
         ''prep_time'' \<mapsto>
            js_or (normalize (JStr (prep_itemprop_text m))) (normalize (JStr (prep_text m))),
         ''cook_time'' \<mapsto>
            js_or (normalize (JStr (cook_itemprop_text m))) (normalize (JStr (cook_text m))),
         ''total_time'' \<mapsto>
            js_or (normalize (JStr (total_itemprop_text m))) (normalize (JStr (total_text m))),
         ''servings'' \<mapsto>
            js_or (normalize (JStr (servings_text m))) (normalize (attr_value (meta_yield m))),
         ''image_url'' \<mapsto> js_or (js_or (attr_value (og_image m)) (attr_value (img_src m))) JNull],
      ingredients = Some (uniq (texts_of (ingredient_texts m))),
      instructions = Some (uniq (texts_of (instruction_texts m))),
      tags = Some (uniq (texts_of (tag_texts m))),
      nutrition = JUndefined\<rparr>"

section \<open>The crawl\<close>

text \<open>
  The configuration as \<^verbatim>\<open>main\<close> derives it from the input.  A count that is not a finite
  number is \<open>None\<close>; the counts are integers, as the input schema declares them.

  \<^verbatim>\<open>const collectDetails = COLLECT_DETAILS_RAW === undefined ? true : Boolean(COLLECT_DETAILS_RAW);
  const RESULTS_WANTED = Number.isFinite(+RESULTS_WANTED_RAW)
      ? Math.max(1, +RESULTS_WANTED_RAW) : Number.MAX_SAFE_INTEGER;
  const MAX_PAGES = Number.isFinite(+MAX_PAGES_RAW) ? Math.max(1, +MAX_PAGES_RAW) : 10;\<close>
\<close>

record config =
  RESULTS_WANTED :: int
  MAX_PAGES :: int
  collectDetails :: bool
  dedupe :: bool
  recipeType :: string

definition MAX_SAFE_INTEGER :: int where
  "MAX_SAFE_INTEGER = 9007199254740991"

definition mk_config :: "int option \<Rightarrow> int option \<Rightarrow> bool option \<Rightarrow> bool \<Rightarrow> string \<Rightarrow> config" where
  "mk_config results_wanted max_pages collect_details dedupe_in recipe_type =
     \<lparr>RESULTS_WANTED = (case results_wanted of None \<Rightarrow> MAX_SAFE_INTEGER | Some n \<Rightarrow> max 1 n),
      MAX_PAGES = (case max_pages of None \<Rightarrow> 10 | Some n \<Rightarrow> max 1 n),
      collectDetails = (case collect_details of None \<Rightarrow> True | Some b \<Rightarrow> b),
      dedupe = dedupe_in,
      recipeType = recipe_type\<rparr>"

text \<open>A request of the crawler's queue with its \<^verbatim>\<open>userData\<close>: \<^verbatim>\<open>label\<close> and \<^verbatim>\<open>pageNo\<close>
  (1 where the handler finds none).\<close>

datatype label = LIST | DETAIL

record request =
  req_url :: string
  req_label :: label
  req_pageNo :: int

text \<open>
  The mutable state of a run: the counter \<^verbatim>\<open>saved\<close>, the set \<^verbatim>\<open>seenUrls\<close>, the records
  pushed to the dataset, every request handed to the queue so far (the start request
  and the arguments of \<^verbatim>\<open>enqueueLinks\<close>), and the records of the detail handlers that are
  suspended in \<^verbatim>\<open>await Dataset.pushData(item)\<close>, before their \<^verbatim>\<open>saved += 1\<close>.
\<close>

record crawl =
  saved :: int
  seenUrls :: "string set option"
  dataset :: "jv list"
  queue :: "request list"
  pushing :: "jv list"

definition init :: "config \<Rightarrow> string \<Rightarrow> crawl" where
  "init cfg startUrl =
     \<lparr>saved = 0,
      seenUrls = (if dedupe cfg then Some {} else None),
      dataset = [],
      queue = [\<lparr>req_url = startUrl, req_label = LIST, req_pageNo = 1\<rparr>],
      pushing = []\<rparr>"

text \<open>\<^verbatim>\<open>xs.slice(0, n)\<close> for an integer \<open>n\<close>: a negative end counts from the end of the array.\<close>

definition slice0 :: "'a list \<Rightarrow> int \<Rightarrow> 'a list" where
  "slice0 xs n = (if 0 \<le> n then take (nat n) xs else take (nat (int (length xs) + n)) xs)"

text \<open>\<^verbatim>\<open>u.split('/').pop()?.replace(/-/g, ' ')\<close>: the part after the last slash, hyphens as
  spaces.\<close>

definition slug :: "string \<Rightarrow> string" where
  "slug u = map (\<lambda>c. if c = CHR ''-'' then CHR '' '' else c)
              (rev (takeWhile (\<lambda>c. c \<noteq> CHR ''/'') (rev u)))"

text \<open>The record of the URLs-only mode:
  \<^verbatim>\<open>{ title: normalize(u.split('/').pop()?.replace(/-/g, ' ')) || 'Recipe', url: u,
    recipe_type: recipeType, _source: 'epicurious.com' }\<close>\<close>

definition minimal_record :: "config \<Rightarrow> string \<Rightarrow> jv" where
  "minimal_record cfg u =
     JObj [(''title'', js_or (normalize (JStr (slug u))) (JStr ''Recipe'')),
           (''url'', JStr u),
           (''recipe_type'', JStr (recipeType cfg)),
           (''_source'', JStr ''epicurious.com'')]"

text \<open>A listing page as the handler reads it: the texts of its metadata blocks, the
  \<^verbatim>\<open>href\<close> of each element the link selector matches, and its next-page links.\<close>

record list_page =
  list_blocks :: "string list"
  list_anchors :: "string option list"
  list_next :: next_links

text \<open>
  The \<^verbatim>\<open>LIST\<close> branch of \<^verbatim>\<open>requestHandler\<close>:

  \<^verbatim>\<open>const ldNodes = parseJsonLdScripts($);
  const jsonLinks = extractListLinks(ldNodes, request.url);
  const htmlLinks = findRecipeLinks($, request.url);
  const combined = uniq([...jsonLinks, ...htmlLinks]);
  const remaining = RESULTS_WANTED - saved;
  const limited = remaining < combined.length ? combined.slice(0, remaining) : combined;
  if (collectDetails && limited.length) {
      await enqueueLinks({ urls: limited, userData: { label: 'DETAIL' } });
  } else if (!collectDetails && limited.length) {
      await Dataset.pushData(limited.map((u) => ({ ... })));
      saved += limited.length; }
  if (saved < RESULTS_WANTED && pageNo < MAX_PAGES) {
      const nextUrl = findNextPage($, request.url);
      if (nextUrl) {
          await enqueueLinks({ urls: [nextUrl], userData: { label: 'LIST', pageNo: pageNo + 1 } }); } }
  return;\<close>

  A throw of \<^verbatim>\<open>extractListLinks\<close> leaves the handler before it changed anything.
\<close>

definition list_handler ::
  "(string \<Rightarrow> jv option) \<Rightarrow> resolver \<Rightarrow> config \<Rightarrow> crawl \<Rightarrow> request \<Rightarrow> list_page
   \<Rightarrow> js_error + crawl" where
  "list_handler parse resolve cfg st req page =
     (case extractListLinks resolve (parseJsonLdScripts parse (list_blocks page)) (req_url req) of
        Inl e \<Rightarrow> Inl e
      | Inr jsonLinks \<Rightarrow>
          let found = findRecipeLinks resolve (seenUrls st) (list_anchors page) (req_url req);
              combined = uniq_str (jsonLinks @ fst found);
              remaining = RESULTS_WANTED cfg - saved st;
              limited = (if remaining < int (length combined) then slice0 combined remaining
                         else combined);
              st1 = st\<lparr>seenUrls := snd found\<rparr>;
              st2 = (if collectDetails cfg \<and> limited \<noteq> []
                     then st1\<lparr>queue := queue st1 @
                            map (\<lambda>u. \<lparr>req_url = u, req_label = DETAIL, req_pageNo = 1\<rparr>) limited\<rparr>
                     else if \<not> collectDetails cfg \<and> limited \<noteq> []
                     then st1\<lparr>dataset := dataset st1 @ map (minimal_record cfg) limited,
                             saved := saved st1 + int (length limited)\<rparr>
                     else st1)
          in Inr
            (if saved st2 < RESULTS_WANTED cfg \<and> req_pageNo req < MAX_PAGES cfg
             then (case findNextPage resolve (list_next page) (req_url req) of
                     None \<Rightarrow> st2
                   | Some nextUrl \<Rightarrow>
                       if nextUrl = [] then st2
                       else st2\<lparr>queue := queue st2 @
                              [\<lparr>req_url = nextUrl, req_label = LIST,
                                req_pageNo = req_pageNo req + 1\<rparr>]\<rparr>)
             else st2))"

text \<open>A detail page: its metadata blocks and what the markup selectors find.  A response
  of \<^verbatim>\<open>gotScraping\<close> for an alternate endpoint: a throw, or a status with the page of its
  body (\<open>None\<close> for an empty body).\<close>

record detail_page =
  detail_blocks :: "string list"
  detail_markup :: markup

datatype response = Threw | Response int "detail_page option"

text \<open>
  The loop over the alternate endpoints:

  \<^verbatim>\<open>for (const altUrl of altCandidates) {
      try {
          const res = await gotScraping({ url: altUrl, ... });
          if (res.statusCode >= 200 && res.statusCode < 400 && res.body) {
              const $alt = cheerioLoad(res.body);
              const altRecipe = mergeRecipe(
                  extractRecipeFromJsonLd(parseJsonLdScripts($alt)), parseHtmlRecipe($alt));
              recipe = mergeRecipe(recipe, altRecipe);
              if (hasCoreRecipeData(recipe)) break; }
      } catch (err) { crawlerLog.debug(...); } }\<close>
\<close>

fun alt_loop ::
  "nat \<Rightarrow> (string \<Rightarrow> jv option) \<Rightarrow> (string \<Rightarrow> response) \<Rightarrow> nat \<Rightarrow> recipe \<Rightarrow> string list
   \<Rightarrow> recipe" where
  "alt_loop stack parse fetch origin recipe [] = recipe"
| "alt_loop stack parse fetch origin recipe (altUrl # rest) =
     (case fetch altUrl of
        Threw \<Rightarrow> alt_loop stack parse fetch (Suc origin) recipe rest
      | Response status body \<Rightarrow>
          (case body of
             None \<Rightarrow> alt_loop stack parse fetch (Suc origin) recipe rest
           | Some alt \<Rightarrow>
               if 200 \<le> status \<and> status < 400
               then (case extractRecipeFromJsonLd origin stack
                             (parseJsonLdScripts parse (detail_blocks alt)) of
                       Inl e \<Rightarrow> alt_loop stack parse fetch (Suc origin) recipe rest
                     | Inr from_ld \<Rightarrow>
                         let altRecipe = mergeRecipe from_ld (Some (parseHtmlRecipe (detail_markup alt)));
                             recipe' = mergeRecipe (Some recipe) (Some altRecipe)
                         in if hasCoreRecipeData recipe' then recipe'
                            else alt_loop stack parse fetch (Suc origin) recipe' rest)
               else alt_loop stack parse fetch (Suc origin) recipe rest))"

text \<open>\<^verbatim>\<open>v || null\<close> and \<^verbatim>\<open>v || []\<close> of the output record.\<close>

definition or_null :: "jv \<Rightarrow> jv" where
  "or_null v = js_or v JNull"

text \<open>
  The record of a detail page, after

  \<^verbatim>\<open>if (!recipe.title) {
      recipe.title = normalize(request.url.split('/').pop()?.replace(/-/g, ' ')) || 'Untitled Recipe'; }\<close>

  \<open>now\<close> is \<^verbatim>\<open>new Date().toISOString()\<close>.
\<close>

definition final_title :: "recipe \<Rightarrow> string \<Rightarrow> jv" where
  "final_title recipe url =
     (if \<not> truthy (scalar recipe ''title'')
      then js_or (normalize (JStr (slug url))) (JStr ''Untitled Recipe'')
      else scalar recipe ''title'')"

definition item_of :: "config \<Rightarrow> string \<Rightarrow> string \<Rightarrow> recipe \<Rightarrow> jv" where
  "item_of cfg now url recipe =
     JObj [(''title'', final_title recipe url),
           (''author'', or_null (scalar recipe ''author'')),
           (''description'', or_null (scalar recipe ''description'')),
           (''recipe_type'', JStr (recipeType cfg)),
           (''ingredients'', JArr (map value_of (or_empty (ingredients recipe)))),
           (''ingredients_count'', JNum (int (length (or_empty (ingredients recipe))))),
           (''instructions'',
              (case instructions recipe of
                 None \<Rightarrow> JNull
               | Some steps \<Rightarrow> or_null (JStr (js_join '' | '' (map value_of steps))))),
           (''instructions_list'', JArr (map value_of (or_empty (instructions recipe)))),
           (''prep_time'', or_null (scalar recipe ''prep_time'')),
           (''cook_time'', or_null (scalar recipe ''cook_time'')),
           (''total_time'', or_null (scalar recipe ''total_time'')),
           (''servings'', or_null (scalar recipe ''servings'')),
           (''difficulty'', or_null (scalar recipe ''difficulty'')),
           (''cuisine'', or_null (scalar recipe ''cuisine'')),
           (''category'', or_null (scalar recipe ''category'')),
           (''tags'', JArr (map value_of (or_empty (tags recipe)))),
           (''image_url'', or_null (scalar recipe ''image_url'')),
           (''date_published'', or_null (scalar recipe ''date_published'')),
           (''rating_value'', or_null (scalar recipe ''rating_value'')),
           (''rating_count'', or_null (scalar recipe ''rating_count'')),
           (''rating_best'', or_null (scalar recipe ''rating_best'')),
           (''rating_worst'', or_null (scalar recipe ''rating_worst'')),
           (''nutrition'', or_null (nutrition recipe)),
           (''url'', JStr url),
           (''scraped_at'', JStr now),
           (''_source'', JStr ''epicurious.com'')]"

text \<open>
  The \<^verbatim>\<open>try\<close> of the \<^verbatim>\<open>DETAIL\<close> branch up to the record it is about to push:

  \<^verbatim>\<open>const ldNodes = parseJsonLdScripts($);
  let recipe = extractRecipeFromJsonLd(ldNodes) || {};
  recipe = mergeRecipe(recipe, parseHtmlRecipe($));
  if (!hasCoreRecipeData(recipe)) {
      const altCandidates = buildAlternateDetailUrls(request.url);
      for (const altUrl of altCandidates) { ... } }
  if (!recipe.title) { ... }
  const item = { title: recipe.title, ... };\<close>
\<close>

definition detail_item ::
  "nat \<Rightarrow> (string \<Rightarrow> jv option) \<Rightarrow> (string \<Rightarrow> response) \<Rightarrow> config \<Rightarrow> string \<Rightarrow> string
   \<Rightarrow> detail_page \<Rightarrow> js_error + jv" where
  "detail_item stack parse fetch cfg now url page =
     (case extractRecipeFromJsonLd 0 stack (parseJsonLdScripts parse (detail_blocks page)) of
        Inl e \<Rightarrow> Inl e
      | Inr from_ld \<Rightarrow>
          let recipe0 = mergeRecipe
                 (Some (case from_ld of None \<Rightarrow> empty_recipe | Some r \<Rightarrow> r))
                 (Some (parseHtmlRecipe (detail_markup page)));
              recipe = (if \<not> hasCoreRecipeData recipe0
                        then alt_loop stack parse fetch 1 recipe0 (buildAlternateDetailUrls url)
                        else recipe0)
          in Inr (item_of cfg now url recipe))"

text \<open>
  The steps of a run.  The crawler runs up to five handlers at a time
  (\<^verbatim>\<open>maxConcurrency: 5\<close>); a handler runs until its next \<^verbatim>\<open>await\<close>.  A listing handler
  is one step.  A detail handler is two: it starts with

  \<^verbatim>\<open>if (saved >= RESULTS_WANTED) return;\<close>

  builds its record and suspends in \<^verbatim>\<open>await Dataset.pushData(item)\<close>; when that returns
  it runs \<^verbatim>\<open>saved += 1\<close>.  A handler that throws, or whose \<^verbatim>\<open>try\<close> catches a throw,
  changes nothing.  \<open>stack\<close> is the stack the engine leaves for the instruction walk of a
  detail handler.  A step is for a request that was handed to the queue; the page it is
  given is what the site answered.  \<open>FinishDetail i\<close> resumes the \<open>i\<close>-th suspended
  detail handler.
\<close>

datatype event =
    HandleList request list_page
  | BeginDetail request detail_page "string \<Rightarrow> response" string
  | FinishDetail nat

definition step ::
  "nat \<Rightarrow> (string \<Rightarrow> jv option) \<Rightarrow> resolver \<Rightarrow> config \<Rightarrow> crawl \<Rightarrow> event \<Rightarrow> crawl option" where
  "step stack parse resolve cfg st ev =
     (case ev of
        HandleList req page \<Rightarrow>
          if req \<in> set (queue st) \<and> req_label req = LIST
          then (case list_handler parse resolve cfg st req page of
                  Inl e \<Rightarrow> Some st
                | Inr st' \<Rightarrow> Some st')
          else None
      | BeginDetail req page fetch now \<Rightarrow>
          if req \<in> set (queue st) \<and> req_label req = DETAIL
          then (if saved st \<ge> RESULTS_WANTED cfg then Some st
                else (case detail_item stack parse fetch cfg now (req_url req) page of
                        Inl e \<Rightarrow> Some st
                      | Inr item \<Rightarrow> Some (st\<lparr>pushing := pushing st @ [item]\<rparr>)))
          else None
      | FinishDetail i \<Rightarrow>
          if i < length (pushing st)
          then Some (st\<lparr>pushing := take i (pushing st) @ drop (Suc i) (pushing st),
                       dataset := dataset st @ [pushing st ! i],
                       saved := saved st + 1\<rparr>)
          else None)"

fun run ::
  "nat \<Rightarrow> (string \<Rightarrow> jv option) \<Rightarrow> resolver \<Rightarrow> config \<Rightarrow> crawl \<Rightarrow> event list \<Rightarrow> crawl option" where
  "run stack parse resolve cfg st [] = Some st"
| "run stack parse resolve cfg st (ev # evs) =
     (case step stack parse resolve cfg st ev of
        None \<Rightarrow> None
      | Some st' \<Rightarrow> run stack parse resolve cfg st' evs)"

text \<open>A resolver for closed examples: a reference that is already an absolute
  \<^verbatim>\<open>https\<close> URL in serialised form resolves to itself, as it does for the platform's
  parser on the references used below; the examples use no other reference.\<close>

definition absolute_only :: resolver where
  "absolute_only href base = (if take 8 href = ''https://'' then Some href else None)"

section \<open>Pages for the closed examples\<close>

text \<open>A page on which no selector of \<^verbatim>\<open>parseHtmlRecipe\<close> matches.\<close>

definition no_markup :: markup where
  "no_markup =
     \<lparr>h1_text = [], hed_text = [], author_text = [], byline_text = [], dek_text = [],
      meta_description = None, servings_text = [], meta_yield = None, ingredient_texts = [],
      instruction_texts = [], prep_itemprop_text = [], prep_text = [], cook_itemprop_text = [],
      cook_text = [], total_itemprop_text = [], total_text = [], og_image = None,
      img_src = None, tag_texts = []\<rparr>"

definition no_next :: next_links where
  "no_next = \<lparr>next_rel = None, next_aria = None, next_button = None, next_text = None\<rparr>"

text \<open>A metadata block that lists one recipe, and what \<^verbatim>\<open>JSON.parse\<close> makes of it.\<close>

definition item_list_block :: string where
  \<open>item_list_block =
     ''{"@type":"ItemList","itemListElement":[{"url":"https://www.epicurious.com/recipes/food/views/soup"}]}''\<close>

definition item_list_value :: jv where
  "item_list_value =
     JObj [(''@type'', JStr ''ItemList''),
           (''itemListElement'',
              JArr [JObj [(''url'', JStr ''https://www.epicurious.com/recipes/food/views/soup'')]])]"

text \<open>A metadata block of a recipe whose name is an empty array.\<close>

definition unnamed_recipe_block :: string where
  \<open>unnamed_recipe_block = ''{"@type":"Recipe","name":[]}''\<close>

definition unnamed_recipe_value :: jv where
  "unnamed_recipe_value = JObj [(''@type'', JStr ''Recipe''), (''name'', JArr [])]"

definition example_parse :: "string \<Rightarrow> jv option" where
  "example_parse s =
     (if s = item_list_block then Some item_list_value
      else if s = unnamed_recipe_block then Some unnamed_recipe_value
      else None)"

text \<open>Two listing pages whose metadata lists the same recipe; the first links to the
  second.\<close>

definition menu_page_1 :: list_page where
  "menu_page_1 =
     \<lparr>list_blocks = [item_list_block], list_anchors = [],
      list_next = no_next\<lparr>next_rel := Some ''https://www.epicurious.com/menus?page=2''\<rparr>\<rparr>"

definition menu_page_2 :: list_page where
  "menu_page_2 = \<lparr>list_blocks = [item_list_block], list_anchors = [], list_next = no_next\<rparr>"

text \<open>Two listing pages with one recipe anchor each, the first linking to the second, and
  the two detail pages, complete in their markup.\<close>

definition soups_page_1 :: list_page where
  "soups_page_1 =
     \<lparr>list_blocks = [],
      list_anchors = [Some ''https://www.epicurious.com/recipes/food/views/soup''],
      list_next = no_next\<lparr>next_rel := Some ''https://www.epicurious.com/menus?page=2''\<rparr>\<rparr>"

definition soups_page_2 :: list_page where
  "soups_page_2 =
     \<lparr>list_blocks = [],
      list_anchors = [Some ''https://www.epicurious.com/recipes/food/views/stew''],
      list_next = no_next\<rparr>"

definition soup_page :: detail_page where
  "soup_page =
     \<lparr>detail_blocks = [],
      detail_markup = no_markup\<lparr>h1_text := ''Soup'', ingredient_texts := [''water''],
                                 instruction_texts := [''Boil'']\<rparr>\<rparr>"

definition stew_page :: detail_page where
  "stew_page =
     \<lparr>detail_blocks = [],
      detail_markup = no_markup\<lparr>h1_text := ''Stew'', ingredient_texts := [''beef''],
                                 instruction_texts := [''Simmer'']\<rparr>\<rparr>"

text \<open>A detail page whose metadata has the recipe with the empty name and whose markup has
  a heading.\<close>

definition unnamed_page :: detail_page where
  "unnamed_page =
     \<lparr>detail_blocks = [unnamed_recipe_block],
      detail_markup = no_markup\<lparr>h1_text := ''Tomato Soup''\<rparr>\<rparr>"

definition unnamed_listing :: list_page where
  "unnamed_listing =
     \<lparr>list_blocks = [],
      list_anchors = [Some ''https://www.epicurious.com/recipes/food/views/tomato-soup''],
      list_next = no_next\<rparr>"

text \<open>A metadata block that is an array, and one that is a graph container.\<close>

definition array_block :: string where
  \<open>array_block = ''[{"@type":"WebSite"},{"@type":"Organization"}]''\<close>

definition array_value :: jv where
  "array_value = JArr [JObj [(''@type'', JStr ''WebSite'')], JObj [(''@type'', JStr ''Organization'')]]"

definition graph_block :: string where
  \<open>graph_block = ''{"@context":"https://schema.org","@graph":[{"@type":"WebPage"},{"@type":"Person"}]}''\<close>

definition graph_value :: jv where
  "graph_value =
     JObj [(''@context'', JStr ''https://schema.org''),
           (''@graph'', JArr [JObj [(''@type'', JStr ''WebPage'')], JObj [(''@type'', JStr ''Person'')]])]"

definition blocks_parse :: "string \<Rightarrow> jv option" where
  "blocks_parse s =
     (if s = array_block then Some array_value
      else if s = graph_block then Some graph_value
      else if s = unnamed_recipe_block then Some unnamed_recipe_value
      else None)"


section \<open>Predicates on the state of a run\<close>

text \<open>Every listing request handed to the queue has a page number from 1 to
  \<^verbatim>\<open>MAX_PAGES\<close>.\<close>

definition pages_ok :: "config \<Rightarrow> crawl \<Rightarrow> bool" where
  "pages_ok cfg st \<longleftrightarrow>
     list_all (\<lambda>r. req_label r = LIST \<longrightarrow> 1 \<le> req_pageNo r \<and> req_pageNo r \<le> MAX_PAGES cfg)
       (queue st)"

text \<open>The listing requests handed to the queue so far, in order.\<close>

definition list_requests :: "crawl \<Rightarrow> request list" where
  "list_requests st = filter (\<lambda>r. req_label r = LIST) (queue st)"

text \<open>The state of a run that only collects URLs: the counter within the budget and equal
  to the number of records pushed, no detail handler suspended, no detail request made.\<close>

definition urls_only_ok :: "config \<Rightarrow> crawl \<Rightarrow> bool" where
  "urls_only_ok cfg st \<longleftrightarrow>
     saved st \<le> RESULTS_WANTED cfg \<and> int (length (dataset st)) = saved st
     \<and> pushing st = [] \<and> list_all (\<lambda>r. req_label r = LIST) (queue st)"

section \<open>The URL constructor on plain references\<close>

text \<open>
  \<^verbatim>\<open>new URL(href, base).href\<close> is code of the platform, not of the repository.  The
  definitions below follow the URL standard's parser and serialiser on the references
  the crawler meets: an \<^verbatim>\<open>http\<close> or \<^verbatim>\<open>https\<close> URL with a host of lower-case letters and
  dots, a reference relative to such a base (scheme-relative, path-absolute,
  path-relative, query-only, fragment-only or empty), path and query written in
  characters that the parser keeps as they are.  On these the standard has no
  case folding, no percent-encoding, no dot segment, no port and no credentials to care
  for.  A reference outside this syntax has the result \<open>None\<close>, like one on which the
  constructor throws.  The fragment is taken as written; the standard percent-encodes some
  of its characters, which \<^verbatim>\<open>toAbs\<close> cuts off with the rest of the fragment.
\<close>

record locator =
  scheme :: string
  host :: string
  path :: string
  query :: "string option"
  fragment :: "string option"

definition letters :: string where
  "letters = ''abcdefghijklmnopqrstuvwxyz''"

definition capitals :: string where
  "capitals = ''ABCDEFGHIJKLMNOPQRSTUVWXYZ''"

definition digit_chars :: string where
  "digit_chars = ''0123456789''"

definition host_char :: "char \<Rightarrow> bool" where
  "host_char c \<longleftrightarrow> c \<in> set letters"

definition path_char :: "char \<Rightarrow> bool" where
  "path_char c \<longleftrightarrow> c \<in> set (letters @ capitals @ digit_chars @ ''-_~/'')"

definition query_char :: "char \<Rightarrow> bool" where
  "query_char c \<longleftrightarrow> c \<in> set (letters @ capitals @ digit_chars @ ''-_~/.=&+%'')"

text \<open>A host of non-empty labels of lower-case letters, separated by dots; the flag says
  that a label starts here.\<close>

fun plain_host_from :: "bool \<Rightarrow> string \<Rightarrow> bool" where
  "plain_host_from start [] = (\<not> start)"
| "plain_host_from start (c # cs) =
     (if c = CHR ''.'' then \<not> start \<and> plain_host_from True cs
      else host_char c \<and> plain_host_from False cs)"

definition plain_host :: "string \<Rightarrow> bool" where
  "plain_host h = plain_host_from True h"

text \<open>The part of \<open>s\<close> after the first \<open>c\<close>.\<close>

definition after :: "char \<Rightarrow> string \<Rightarrow> string" where
  "after c s = drop 1 (dropWhile (\<lambda>x. x \<noteq> c) s)"

text \<open>The base path without its last segment, the slash before it kept.\<close>

definition dir_of :: "string \<Rightarrow> string" where
  "dir_of p = rev (dropWhile (\<lambda>x. x \<noteq> CHR ''/'') (rev p))"

text \<open>After the two slashes: the host up to the first slash, then the path, \<^verbatim>\<open>/\<close> when
  there is none.\<close>

definition authority :: "string \<Rightarrow> string \<Rightarrow> string option \<Rightarrow> locator option" where
  "authority s rest q =
     (let h = before CHR ''/'' rest;
          p = dropWhile (\<lambda>x. x \<noteq> CHR ''/'') rest
      in if plain_host h \<and> list_all path_char p
         then Some \<lparr>scheme = s, host = h, path = (if p = [] then ''/'' else p),
                     query = q, fragment = None\<rparr>
         else None)"

text \<open>A reference without its fragment, read against the base when there is one.  An
  absolute reference stands by itself; with no base, no other reference is read.  An empty
  reference is the base, with the query of the reference when it has one.\<close>

definition parse_main :: "locator option \<Rightarrow> string \<Rightarrow> locator option" where
  "parse_main base r =
     (let p = before CHR ''?'' r;
          q = (if CHR ''?'' \<in> set r then Some (after CHR ''?'' r) else None)
      in if \<not> (case q of None \<Rightarrow> True | Some t \<Rightarrow> list_all query_char t) then None
         else if take 8 p = ''https://'' then authority ''https'' (drop 8 p) q
         else if take 7 p = ''http://'' then authority ''http'' (drop 7 p) q
         else (case base of
                 None \<Rightarrow> None
               | Some b \<Rightarrow>
                   if take 2 p = ''//'' then authority (scheme b) (drop 2 p) q
                   else if p = []
                   then Some (b\<lparr>query := (case q of None \<Rightarrow> query b | Some t \<Rightarrow> Some t),
                                 fragment := None\<rparr>)
                   else if list_all path_char p
                   then Some \<lparr>scheme = scheme b, host = host b,
                               path = (if hd p = CHR ''/'' then p else dir_of (path b) @ p),
                               query = q, fragment = None\<rparr>
                   else None))"

definition parse_url :: "locator option \<Rightarrow> string \<Rightarrow> locator option" where
  "parse_url base s =
     (case parse_main base (before CHR ''#'' s) of
        None \<Rightarrow> None
      | Some w \<Rightarrow>
          Some (w\<lparr>fragment := (if CHR ''#'' \<in> set s then Some (after CHR ''#'' s) else None)\<rparr>))"

text \<open>The serialiser; \<open>main_part\<close> is the serialisation up to the fragment.\<close>

definition main_part :: "locator \<Rightarrow> string" where
  "main_part w =
     scheme w @ ''://'' @ host w @ path w
     @ (case query w of None \<Rightarrow> [] | Some q \<Rightarrow> CHR ''?'' # q)"



text \<open>What the parser leaves of a reference: one of the two schemes, a plain host, a path
  that starts with a slash, path and query in characters kept as they are.\<close>

definition well_formed :: "locator \<Rightarrow> bool" where
  "well_formed w \<longleftrightarrow>
     (scheme w = ''http'' \<or> scheme w = ''https'')
     \<and> plain_host (host w)
     \<and> path w \<noteq> [] \<and> hd (path w) = CHR ''/'' \<and> list_all path_char (path w)
     \<and> (case query w of None \<Rightarrow> True | Some q \<Rightarrow> list_all query_char q)"


section \<open>Properties of the helpers\<close>

subsection \<open>The insertion-ordered set behind uniq\<close>

lemma same_value_zero_refl: "same_value_zero x x"
  by (cases x) auto

lemma same_value_zero_sym: "same_value_zero x y \<Longrightarrow> same_value_zero y x"
  by (cases x; cases y) auto

lemma fresh_iff: "fresh acc x \<longleftrightarrow> (\<forall>y\<in>set acc. \<not> same_value_zero y x)"
  by (simp add: fresh_def list_ex_iff)

lemma set_insert_split:
  "set_insert (acc @ acc') xs = acc @ set_insert acc' (filter (fresh acc) xs)"
proof (induction xs arbitrary: acc')
  case Nil
  show ?case by simp
next
  case (Cons x xs)
  have step: "set_insert (acc @ (acc' @ [x])) xs =
     acc @ set_insert (acc' @ [x]) (filter (fresh acc) xs)"
    by (rule Cons.IH)
  have f: "fresh acc x \<longleftrightarrow> \<not> list_ex (\<lambda>y. same_value_zero y x) acc"
    by (simp add: fresh_def)
  show ?case
    using Cons.IH[of acc'] step f by (cases "fresh acc x") (auto simp: list_ex_iff)
qed

lemma set_insert_acc: "set_insert acc xs = acc @ set_insert [] (filter (fresh acc) xs)"
  using set_insert_split[of acc "[]" xs] by simp

lemma set_insert_append: "set_insert acc (xs @ ys) = set_insert (set_insert acc xs) ys"
  by (induction xs arbitrary: acc) auto

lemma uniq_append:
  "uniq (xs @ ys) = uniq xs @ uniq (filter (fresh (uniq xs)) ys)"
proof -
  have "uniq (xs @ ys) = set_insert (uniq xs) (filter truthy_elem ys)"
    by (simp add: uniq_def set_insert_append)
  also have "\<dots> = uniq xs @ set_insert [] (filter (fresh (uniq xs)) (filter truthy_elem ys))"
    using set_insert_acc[of "uniq xs" "filter truthy_elem ys"] by simp
  also have "filter (fresh (uniq xs)) (filter truthy_elem ys)
               = filter truthy_elem (filter (fresh (uniq xs)) ys)"
    by (simp add: conj_commute)
  finally show ?thesis by (simp add: uniq_def)
qed

lemma set_set_insert: "set (set_insert acc xs) \<subseteq> set acc \<union> set xs"
proof (induction xs arbitrary: acc)
  case Nil
  show ?case by simp
next
  case (Cons x xs)
  show ?case using Cons.IH[of acc] Cons.IH[of "acc @ [x]"] by auto
qed

lemma set_uniq: "set (uniq xs) \<subseteq> {x \<in> set xs. truthy_elem x}"
  using set_set_insert[of "[]" "filter truthy_elem xs"] by (auto simp: uniq_def)

lemma truthy_uniq: "list_all truthy_elem (uniq xs)"
  using set_uniq[of xs] by (auto simp: list_all_iff)

lemma set_insert_fresh:
  "dup_free xs \<Longrightarrow> list_all (fresh acc) xs \<Longrightarrow> set_insert acc xs = acc @ xs"
proof (induction xs arbitrary: acc)
  case Nil
  show ?case by simp
next
  case (Cons x xs)
  have x: "\<not> list_ex (\<lambda>y. same_value_zero y x) acc"
    using Cons.prems(2) by (simp add: fresh_def)
  have "list_all (fresh (acc @ [x])) xs"
    using Cons.prems by (auto simp: list_all_iff fresh_iff dest: same_value_zero_sym)
  then have "set_insert (acc @ [x]) xs = (acc @ [x]) @ xs"
    using Cons.prems(1) by (intro Cons.IH) simp
  then show ?case using x by simp
qed

lemma uniq_ok: "list_ok xs \<Longrightarrow> uniq xs = xs"
proof -
  assume c: "list_ok xs"
  then have "filter truthy_elem xs = xs" by (auto simp: list_ok_def list_all_iff)
  moreover have "set_insert [] xs = [] @ xs"
    using c by (intro set_insert_fresh) (auto simp: list_ok_def list_all_iff fresh_iff)
  ultimately show ?thesis by (simp add: uniq_def)
qed

lemma filter_fresh_self: "filter (fresh xs) xs = []"
  by (auto simp: fresh_iff filter_empty_conv intro: same_value_zero_refl)

lemma uniq_twice: "list_ok xs \<Longrightarrow> uniq (xs @ xs) = xs"
proof -
  assume c: "list_ok xs"
  have "uniq (xs @ xs) = uniq xs @ uniq (filter (fresh (uniq xs)) xs)"
    by (rule uniq_append)
  also have "\<dots> = xs @ uniq (filter (fresh xs) xs)"
    using c by (simp add: uniq_ok)
  also have "\<dots> = xs"
    by (simp add: filter_fresh_self uniq_def)
  finally show ?thesis .
qed

lemma dup_free_snoc: "dup_free (acc @ [x]) \<longleftrightarrow> dup_free acc \<and> fresh acc x"
  by (induction acc) (auto simp: fresh_iff dest: same_value_zero_sym)

lemma dup_free_set_insert: "dup_free acc \<Longrightarrow> dup_free (set_insert acc xs)"
proof (induction xs arbitrary: acc)
  case Nil
  then show ?case by simp
next
  case (Cons x xs)
  show ?case
  proof (cases "list_ex (\<lambda>y. same_value_zero y x) acc")
    case True
    then show ?thesis using Cons by simp
  next
    case False
    then have "dup_free (acc @ [x])"
      using Cons.prems by (simp add: dup_free_snoc fresh_def)
    then show ?thesis using False Cons.IH[of "acc @ [x]"] by simp
  qed
qed

lemma dup_free_uniq: "dup_free (uniq xs)"
  by (simp add: uniq_def dup_free_set_insert)

lemma list_ok_uniq: "list_ok (uniq xs)"
  by (simp add: list_ok_def truthy_uniq dup_free_uniq)

lemma dup_free_filter: "dup_free xs \<Longrightarrow> dup_free (filter P xs)"
  by (induction xs) (auto simp: fresh_iff)

lemma list_ok_filter: "list_ok xs \<Longrightarrow> list_ok (filter P xs)"
  by (auto simp: list_ok_def dup_free_filter list_all_iff)

lemma dup_free_append:
  "dup_free xs \<Longrightarrow> dup_free ys \<Longrightarrow> list_all (fresh xs) ys \<Longrightarrow> dup_free (xs @ ys)"
  by (induction xs) (auto simp: fresh_iff list_all_iff dest: same_value_zero_sym)

lemma uniq_union:
  assumes "list_ok xs" and "list_ok ys"
  shows "uniq (xs @ ys) = xs @ filter (fresh xs) ys"
proof -
  have "uniq (xs @ ys) = xs @ uniq (filter (fresh xs) ys)"
    using uniq_append[of xs ys] assms(1) by (simp add: uniq_ok)
  then show ?thesis using list_ok_filter[OF assms(2)] by (simp add: uniq_ok)
qed

subsection \<open>The record merger\<close>

lemma merge_field_lists:
  "ingredients (merge_field e m f) = ingredients m"
  "instructions (merge_field e m f) = instructions m"
  "tags (merge_field e m f) = tags m"
  "nutrition (merge_field e m f) = nutrition m"
  by (simp_all add: merge_field_def)

lemma foldl_merge_field_lists:
  "ingredients (foldl (merge_field e) m fs) = ingredients m"
  "instructions (foldl (merge_field e) m fs) = instructions m"
  "tags (foldl (merge_field e) m fs) = tags m"
  "nutrition (foldl (merge_field e) m fs) = nutrition m"
  by (induction fs arbitrary: m) (simp_all add: merge_field_lists)

lemma scalar_merge_field:
  "scalar (merge_field e m f) g =
     (if g = f \<and> \<not> truthy (scalar m f) \<and> truthy (scalar e f) then scalar e f else scalar m g)"
  by (simp add: merge_field_def scalar_def)

lemma scalar_foldl_merge_field:
  "scalar (foldl (merge_field e) m fs) g =
     (if g \<in> set fs \<and> \<not> truthy (scalar m g) \<and> truthy (scalar e g) then scalar e g
      else scalar m g)"
proof (induction fs arbitrary: m)
  case Nil
  show ?case by simp
next
  case (Cons f fs)
  show ?case
    unfolding foldl_Cons Cons.IH[of "merge_field e m f"]
    by (auto simp: scalar_merge_field)
qed

lemma dom_foldl_merge_field: "dom (scalars m) \<subseteq> dom (scalars (foldl (merge_field e) m fs))"
proof (induction fs arbitrary: m)
  case Nil
  show ?case by simp
next
  case (Cons f fs)
  have "dom (scalars m) \<subseteq> dom (scalars (merge_field e m f))"
    by (auto simp: merge_field_def)
  then show ?case using Cons.IH[of "merge_field e m f"] by auto
qed

lemma merge_field_self: "merge_field r r f = r"
  by (simp add: merge_field_def)

lemma foldl_merge_field_self: "foldl (merge_field r) r fs = r"
  by (induction fs) (simp_all add: merge_field_self)

lemma scalar_mergeRecipe:
  "scalar (mergeRecipe (Some a) (Some b)) f =
     (if f \<in> set scalar_fields \<and> \<not> truthy (scalar a f) \<and> truthy (scalar b f) then scalar b f
      else scalar a f)"
proof -
  have "scalar (mergeRecipe (Some a) (Some b)) f = scalar (foldl (merge_field b) a scalar_fields) f"
    by (simp add: mergeRecipe_def Let_def scalar_def)
  then show ?thesis by (simp only: scalar_foldl_merge_field)
qed

lemma dom_mergeRecipe: "dom (scalars a) \<subseteq> dom (scalars (mergeRecipe (Some a) (Some b)))"
  using dom_foldl_merge_field[of a b scalar_fields] by (simp add: mergeRecipe_def Let_def)

lemma lists_mergeRecipe:
  "ingredients (mergeRecipe (Some a) (Some b)) = merge_list (ingredients a) (ingredients b)"
  "instructions (mergeRecipe (Some a) (Some b)) = merge_list (instructions a) (instructions b)"
  "tags (mergeRecipe (Some a) (Some b)) = merge_list (tags a) (tags b)"
  by (simp_all add: mergeRecipe_def Let_def foldl_merge_field_lists)

lemma nutrition_mergeRecipe:
  "nutrition (mergeRecipe (Some a) (Some b)) =
     (if truthy (nutrition b) \<and> \<not> truthy (nutrition a) then nutrition b else nutrition a)"
  by (simp add: mergeRecipe_def Let_def foldl_merge_field_lists)

lemma merge_list_union:
  assumes "list_ok (or_empty mine)" and "list_ok (or_empty theirs)"
  shows "or_empty (merge_list mine theirs)
           = or_empty mine @ filter (fresh (or_empty mine)) (or_empty theirs)"
proof (cases "has_length theirs")
  case True
  then show ?thesis using uniq_union[OF assms] by (simp add: merge_list_def)
next
  case False
  then have "or_empty theirs = []" by (cases theirs) auto
  then show ?thesis using False by (simp add: merge_list_def)
qed

lemma merge_list_uniq:
  assumes "list_ok (or_empty mine)"
  shows "or_empty (merge_list mine theirs) = uniq (or_empty mine @ or_empty theirs)"
proof (cases "has_length theirs")
  case True
  then show ?thesis by (simp add: merge_list_def)
next
  case False
  then have "or_empty theirs = []" by (cases theirs) auto
  then show ?thesis using False assms by (simp add: merge_list_def uniq_ok)
qed

lemma merge_list_present: "mine \<noteq> None \<Longrightarrow> merge_list mine theirs \<noteq> None"
  by (simp add: merge_list_def)

lemma merge_list_ok:
  assumes "list_ok (or_empty mine)"
  shows "list_ok (or_empty (merge_list mine theirs))"
  using assms list_ok_uniq by (simp add: merge_list_def)

lemma merge_list_self: "list_ok (or_empty l) \<Longrightarrow> merge_list l l = l"
  by (cases l) (auto simp: merge_list_def uniq_twice)

text \<open>
  Claim C1.  For two partial records \<open>a\<close> and \<open>b\<close>, \<open>mergeRecipe a b\<close> keeps every truthy
  scalar (and the nutrition blob) of \<open>a\<close> and adopts the value of \<open>b\<close> where \<open>a\<close> has
  none, so every non-empty field of either is in the result and a conflict goes to
  \<open>a\<close>.  Each list of the result is the de-duplicated union of both lists: the members
  of \<open>a\<close> in their order, followed by the members of \<open>b\<close> that \<open>a\<close> does not have, in
  their order.  No scalar key and no list of \<open>a\<close> is removed, and the result is a partial
  record again.
\<close>

theorem mergeRecipe_contents:
  assumes "partial_record a" and "partial_record b"
  shows
  "(\<forall>f\<in>set scalar_fields.
      scalar (mergeRecipe (Some a) (Some b)) f =
        (if truthy (scalar a f) then scalar a f
         else if truthy (scalar b f) then scalar b f else scalar a f))
   \<and> nutrition (mergeRecipe (Some a) (Some b)) =
        (if truthy (nutrition a) then nutrition a
         else if truthy (nutrition b) then nutrition b else nutrition a)
   \<and> (\<forall>L\<in>set [ingredients, instructions, tags].
        or_empty (L (mergeRecipe (Some a) (Some b)))
          = or_empty (L a) @ filter (fresh (or_empty (L a))) (or_empty (L b))
        \<and> or_empty (L (mergeRecipe (Some a) (Some b))) = uniq (or_empty (L a) @ or_empty (L b))
        \<and> (L a \<noteq> None \<longrightarrow> L (mergeRecipe (Some a) (Some b)) \<noteq> None))
   \<and> dom (scalars a) \<subseteq> dom (scalars (mergeRecipe (Some a) (Some b)))
   \<and> partial_record (mergeRecipe (Some a) (Some b))"
proof (intro conjI ballI)
  fix f assume "f \<in> set scalar_fields"
  then show "scalar (mergeRecipe (Some a) (Some b)) f =
        (if truthy (scalar a f) then scalar a f
         else if truthy (scalar b f) then scalar b f else scalar a f)"
    by (simp add: scalar_mergeRecipe)
next
  show "nutrition (mergeRecipe (Some a) (Some b)) =
        (if truthy (nutrition a) then nutrition a
         else if truthy (nutrition b) then nutrition b else nutrition a)"
    by (simp add: nutrition_mergeRecipe)
next
  fix L :: "recipe \<Rightarrow> elem list option"
  assume L: "L \<in> set [ingredients, instructions, tags]"
  then have m: "L (mergeRecipe (Some a) (Some b)) = merge_list (L a) (L b)"
    by (auto simp: lists_mergeRecipe)
  have oka: "list_ok (or_empty (L a))" and okb: "list_ok (or_empty (L b))"
    using L assms by (auto simp: partial_record_def)
  show "or_empty (L (mergeRecipe (Some a) (Some b)))
          = or_empty (L a) @ filter (fresh (or_empty (L a))) (or_empty (L b))"
    unfolding m by (rule merge_list_union[OF oka okb])
  show "or_empty (L (mergeRecipe (Some a) (Some b))) = uniq (or_empty (L a) @ or_empty (L b))"
    unfolding m by (rule merge_list_uniq[OF oka])
  show "L a \<noteq> None \<longrightarrow> L (mergeRecipe (Some a) (Some b)) \<noteq> None"
    unfolding m by (simp add: merge_list_present)
next
  show "dom (scalars a) \<subseteq> dom (scalars (mergeRecipe (Some a) (Some b)))"
    by (rule dom_mergeRecipe)
next
  show "partial_record (mergeRecipe (Some a) (Some b))"
    using assms(1) by (simp add: partial_record_def lists_mergeRecipe merge_list_ok)
qed

text \<open>The theorem at two concrete records: the title of the base wins, the missing author
  is adopted, the ingredients are the union with the base's member first, and an array
  member that both lists hold (the same object) is kept once.\<close>

theorem mergeRecipe_contents_witness:
  "scalar (mergeRecipe
      (Some (empty_recipe\<lparr>scalars := [''title'' \<mapsto> JStr ''Soup''],
                          ingredients := Some [Prim (JStr ''salt''),
                             Obj (Address 0 ''ingredients'' 1) (JArr [JStr ''oil''])]\<rparr>))
      (Some (empty_recipe\<lparr>scalars := [''title'' \<mapsto> JStr ''Broth'', ''author'' \<mapsto> JStr ''Ann''],
                          ingredients := Some [Prim (JStr ''water''), Prim (JStr ''salt''),
                             Obj (Address 0 ''ingredients'' 1) (JArr [JStr ''oil''])]\<rparr>)))
     ''title'' = JStr ''Soup''
   \<and> scalar (mergeRecipe
      (Some (empty_recipe\<lparr>scalars := [''title'' \<mapsto> JStr ''Soup''],
                          ingredients := Some [Prim (JStr ''salt''),
                             Obj (Address 0 ''ingredients'' 1) (JArr [JStr ''oil''])]\<rparr>))
      (Some (empty_recipe\<lparr>scalars := [''title'' \<mapsto> JStr ''Broth'', ''author'' \<mapsto> JStr ''Ann''],
                          ingredients := Some [Prim (JStr ''water''), Prim (JStr ''salt''),
                             Obj (Address 0 ''ingredients'' 1) (JArr [JStr ''oil''])]\<rparr>)))
     ''author'' = JStr ''Ann''
   \<and> or_empty (ingredients (mergeRecipe
      (Some (empty_recipe\<lparr>scalars := [''title'' \<mapsto> JStr ''Soup''],
                          ingredients := Some [Prim (JStr ''salt''),
                             Obj (Address 0 ''ingredients'' 1) (JArr [JStr ''oil''])]\<rparr>))
      (Some (empty_recipe\<lparr>scalars := [''title'' \<mapsto> JStr ''Broth'', ''author'' \<mapsto> JStr ''Ann''],
                          ingredients := Some [Prim (JStr ''water''), Prim (JStr ''salt''),
                             Obj (Address 0 ''ingredients'' 1) (JArr [JStr ''oil''])]\<rparr>))))
     = [Prim (JStr ''salt''), Obj (Address 0 ''ingredients'' 1) (JArr [JStr ''oil'']),
        Prim (JStr ''water'')]"
proof -
  have a: "partial_record (empty_recipe\<lparr>scalars := [''title'' \<mapsto> JStr ''Soup''],
                          ingredients := Some [Prim (JStr ''salt''),
                             Obj (Address 0 ''ingredients'' 1) (JArr [JStr ''oil''])]\<rparr>)"
    by (simp add: partial_record_def list_ok_def fresh_def empty_recipe_def)
  have b: "partial_record (empty_recipe\<lparr>scalars := [''title'' \<mapsto> JStr ''Broth'', ''author'' \<mapsto> JStr ''Ann''],
                          ingredients := Some [Prim (JStr ''water''), Prim (JStr ''salt''),
                             Obj (Address 0 ''ingredients'' 1) (JArr [JStr ''oil''])]\<rparr>)"
    by (simp add: partial_record_def list_ok_def fresh_def empty_recipe_def)
  show ?thesis
    using mergeRecipe_contents[OF a b]
    by (simp add: scalar_fields_def scalar_def empty_recipe_def fresh_def)
qed

text \<open>
  Claim C5.  Merging with \<^verbatim>\<open>null\<close> returns the record, and merging a partial record
  with itself returns it: every member of a list meets itself in the \<^verbatim>\<open>Set\<close>, a string
  by its value and an array by being the same object.
\<close>

theorem mergeRecipe_idempotent:
  "mergeRecipe (Some r) None = r
   \<and> (partial_record r \<longrightarrow> mergeRecipe (Some r) (Some r) = r)"
  by (simp add: mergeRecipe_def Let_def foldl_merge_field_self merge_list_self partial_record_def)

text \<open>The theorem at a record with a title, two ingredients and an array among its steps.\<close>

theorem mergeRecipe_idempotent_witness:
  "partial_record
     (empty_recipe\<lparr>scalars := [''title'' \<mapsto> JStr ''Soup''],
                   ingredients := Some [Prim (JStr ''salt''), Prim (JStr ''water'')],
                   instructions := Some [Prim (JStr ''Boil''),
                      Obj (Address 0 ''instructions'' 1) (JArr [JStr ''Chop'', JStr ''Fry''])]\<rparr>)
   \<and> mergeRecipe
       (Some (empty_recipe\<lparr>scalars := [''title'' \<mapsto> JStr ''Soup''],
                   ingredients := Some [Prim (JStr ''salt''), Prim (JStr ''water'')],
                   instructions := Some [Prim (JStr ''Boil''),
                      Obj (Address 0 ''instructions'' 1) (JArr [JStr ''Chop'', JStr ''Fry''])]\<rparr>))
       (Some (empty_recipe\<lparr>scalars := [''title'' \<mapsto> JStr ''Soup''],
                   ingredients := Some [Prim (JStr ''salt''), Prim (JStr ''water'')],
                   instructions := Some [Prim (JStr ''Boil''),
                      Obj (Address 0 ''instructions'' 1) (JArr [JStr ''Chop'', JStr ''Fry''])]\<rparr>))
     = empty_recipe\<lparr>scalars := [''title'' \<mapsto> JStr ''Soup''],
                   ingredients := Some [Prim (JStr ''salt''), Prim (JStr ''water'')],
                   instructions := Some [Prim (JStr ''Boil''),
                      Obj (Address 0 ''instructions'' 1) (JArr [JStr ''Chop'', JStr ''Fry''])]\<rparr>"
proof -
  have p: "partial_record
     (empty_recipe\<lparr>scalars := [''title'' \<mapsto> JStr ''Soup''],
                   ingredients := Some [Prim (JStr ''salt''), Prim (JStr ''water'')],
                   instructions := Some [Prim (JStr ''Boil''),
                      Obj (Address 0 ''instructions'' 1) (JArr [JStr ''Chop'', JStr ''Fry''])]\<rparr>)"
    by (simp add: partial_record_def list_ok_def fresh_def empty_recipe_def)
  show ?thesis
    using mergeRecipe_idempotent
      [of "empty_recipe\<lparr>scalars := [''title'' \<mapsto> JStr ''Soup''],
                   ingredients := Some [Prim (JStr ''salt''), Prim (JStr ''water'')],
                   instructions := Some [Prim (JStr ''Boil''),
                      Obj (Address 0 ''instructions'' 1) (JArr [JStr ''Chop'', JStr ''Fry''])]\<rparr>"]
      p
    by simp
qed

subsection \<open>White-space normalisation\<close>



lemma collapse_ws_hd: "\<not> is_space d \<Longrightarrow> collapse_ws (d # r) = d # collapse_ws r"
  by simp









section \<open>Properties of the extractors\<close>

subsection \<open>Alternate endpoints\<close>
lemma uniq_str_alternates:
  "c \<noteq> [] \<Longrightarrow>
   uniq_str [c, c @ ''?output=1'', c @ ''?page=all'', c @ ''/amp''] =
     [c, c @ ''?output=1'', c @ ''?page=all'', c @ ''/amp'']"
  by (simp add: uniq_str_def uniq_def)

lemma uniq_str_alternates_empty:
  "uniq_str [[], ''?output=1'', ''?page=all'', ''/amp''] = [''?output=1'', ''?page=all'', ''/amp'']"
  by (simp add: uniq_str_def uniq_def)

text \<open>
  Claim C8.  \<open>buildAlternateDetailUrls\<close> is a function of the locator alone.  With
  \<open>cleaned url\<close> the locator cut at its first question mark and without one trailing slash,
  the result is, in this order, the bare URL, the \<^verbatim>\<open>?output=1\<close> variant, the
  \<^verbatim>\<open>?page=all\<close> variant and the \<^verbatim>\<open>/amp\<close> variant, and no entry occurs twice.  (Only a
  locator with nothing before its query has an empty bare URL, which \<^verbatim>\<open>uniq\<close> leaves out.)
\<close>
theorem buildAlternateDetailUrls_order:
  "buildAlternateDetailUrls url =
     (if cleaned url = [] then [] else [cleaned url]) @
     [cleaned url @ ''?output=1'', cleaned url @ ''?page=all'', cleaned url @ ''/amp'']
   \<and> distinct (buildAlternateDetailUrls url)
   \<and> cleaned url = strip_slash (before CHR ''?'' url)"
proof (cases "cleaned url = []")
  case True
  then show ?thesis
    by (simp add: buildAlternateDetailUrls_def uniq_str_alternates_empty cleaned_def)
next
  case False
  then show ?thesis
    by (simp add: buildAlternateDetailUrls_def uniq_str_alternates) (simp add: cleaned_def)
qed

text \<open>The theorem at a detail locator with a trailing slash and a query.\<close>
theorem buildAlternateDetailUrls_witness:
  "buildAlternateDetailUrls ''https://www.epicurious.com/recipes/food/views/soup/?utm=1'' =
     [''https://www.epicurious.com/recipes/food/views/soup'',
      ''https://www.epicurious.com/recipes/food/views/soup?output=1'',
      ''https://www.epicurious.com/recipes/food/views/soup?page=all'',
      ''https://www.epicurious.com/recipes/food/views/soup/amp'']"
  using buildAlternateDetailUrls_order
    [of "''https://www.epicurious.com/recipes/food/views/soup/?utm=1''"]
  by (simp add: cleaned_def before_def strip_slash_def)

subsection \<open>Structured-metadata blocks\<close>

lemma foldl_each_script:
  "foldl (each_script parse) acc blocks =
     acc @ concat (map ld_nodes
             (List.map_filter (\<lambda>raw. if raw = [] then None else parse raw) blocks))"
proof (induction blocks arbitrary: acc)
  case Nil
  show ?case by (simp add: List.map_filter_simps)
next
  case (Cons raw blocks)
  show ?case
    unfolding foldl_Cons Cons.IH
    by (cases "parse raw") (simp_all add: each_script_def try_block_def List.map_filter_simps)
qed

lemma each_script_bad: "parse bad = None \<Longrightarrow> each_script parse acc bad = acc"
  by (simp add: each_script_def try_block_def)

lemma parseJsonLdScripts_append:
  "parseJsonLdScripts parse (xs @ ys) = parseJsonLdScripts parse xs @ parseJsonLdScripts parse ys"
  by (simp add: parseJsonLdScripts_def foldl_each_script List.map_filter_def)

lemma ld_nodes_cases:
  "ld_nodes json =
     (case json of
        JArr elements \<Rightarrow> elements
      | _ \<Rightarrow> (case get_prop json ''@graph'' of
               JArr members \<Rightarrow> members
             | graph \<Rightarrow> if truthy graph then [graph] else [json]))"
  by (cases json; cases "get_prop json ''@graph''") (simp_all add: ld_nodes_def)

text \<open>
  Claim C9.  Whatever the parser does, \<open>parseJsonLdScripts\<close> handles the blocks one by
  one in document order, the result for a page being the results for its blocks one after
  the other.  A block with no text or one that does not parse gives nothing; a block that
  parses to an array gives its elements; a block with a truthy \<^verbatim>\<open>@graph\<close> gives the members
  of the graph (the graph itself when it is not an array); any other block gives its
  value.  So a block that does not parse changes nothing about the blocks before and
  after it.
\<close>

theorem parseJsonLdScripts_absorbs_failures:
  "parseJsonLdScripts parse (xs @ ys) = parseJsonLdScripts parse xs @ parseJsonLdScripts parse ys
   \<and> parseJsonLdScripts parse [raw] =
       (if raw = [] then []
        else case parse raw of
               None \<Rightarrow> []
             | Some json \<Rightarrow>
                 (case json of
                    JArr elements \<Rightarrow> elements
                  | _ \<Rightarrow> (case get_prop json ''@graph'' of
                           JArr members \<Rightarrow> members
                         | graph \<Rightarrow> if truthy graph then [graph] else [json])))
   \<and> (parse bad = None \<longrightarrow>
        parseJsonLdScripts parse (xs @ bad # ys) = parseJsonLdScripts parse (xs @ ys))"
proof (intro conjI impI)
  show "parseJsonLdScripts parse (xs @ ys) = parseJsonLdScripts parse xs @ parseJsonLdScripts parse ys"
    by (rule parseJsonLdScripts_append)
next
  show "parseJsonLdScripts parse [raw] =
       (if raw = [] then []
        else case parse raw of
               None \<Rightarrow> []
             | Some json \<Rightarrow>
                 (case json of
                    JArr elements \<Rightarrow> elements
                  | _ \<Rightarrow> (case get_prop json ''@graph'' of
                           JArr members \<Rightarrow> members
                         | graph \<Rightarrow> if truthy graph then [graph] else [json])))"
  proof (cases "parse raw")
    case None
    then show ?thesis by (simp add: parseJsonLdScripts_def each_script_def try_block_def)
  next
    case (Some json)
    then show ?thesis
      using ld_nodes_cases[of json]
      by (simp add: parseJsonLdScripts_def each_script_def try_block_def)
  qed
next
  assume "parse bad = None"
  then show "parseJsonLdScripts parse (xs @ bad # ys) = parseJsonLdScripts parse (xs @ ys)"
    by (simp add: parseJsonLdScripts_def each_script_bad)
qed

text \<open>The theorem at a page with an array block, a malformed block, a graph container and
  a plain object: the nodes of the three that parse, the array and the graph flattened.\<close>

theorem parseJsonLdScripts_witness:
  "blocks_parse ''{oops'' = None
   \<and> parseJsonLdScripts blocks_parse ([array_block] @ ''{oops'' # [graph_block, unnamed_recipe_block])
     = [JObj [(''@type'', JStr ''WebSite'')], JObj [(''@type'', JStr ''Organization'')],
        JObj [(''@type'', JStr ''WebPage'')], JObj [(''@type'', JStr ''Person'')],
        JObj [(''@type'', JStr ''Recipe''), (''name'', JArr [])]]"
proof -
  have bad: "blocks_parse ''{oops'' = None"
    by (simp add: blocks_parse_def array_block_def graph_block_def unnamed_recipe_block_def)
  have a: "parseJsonLdScripts blocks_parse [array_block]
             = [JObj [(''@type'', JStr ''WebSite'')], JObj [(''@type'', JStr ''Organization'')]]"
    using parseJsonLdScripts_absorbs_failures[of blocks_parse "[]" "[]" array_block]
    by (simp add: blocks_parse_def array_value_def) (simp add: array_block_def)
  have g: "parseJsonLdScripts blocks_parse [graph_block]
             = [JObj [(''@type'', JStr ''WebPage'')], JObj [(''@type'', JStr ''Person'')]]"
    using parseJsonLdScripts_absorbs_failures[of blocks_parse "[]" "[]" graph_block]
    by (simp add: blocks_parse_def graph_value_def)
       (simp add: array_block_def graph_block_def)
  have r: "parseJsonLdScripts blocks_parse [unnamed_recipe_block]
             = [JObj [(''@type'', JStr ''Recipe''), (''name'', JArr [])]]"
    using parseJsonLdScripts_absorbs_failures[of blocks_parse "[]" "[]" unnamed_recipe_block]
    by (simp add: blocks_parse_def unnamed_recipe_value_def)
       (simp add: array_block_def graph_block_def unnamed_recipe_block_def)
  have "parseJsonLdScripts blocks_parse ([array_block] @ ''{oops'' # [graph_block, unnamed_recipe_block])
          = parseJsonLdScripts blocks_parse ([array_block] @ [graph_block, unnamed_recipe_block])"
    using parseJsonLdScripts_absorbs_failures
      [of blocks_parse "[array_block]" "[graph_block, unnamed_recipe_block]" raw "''{oops''"] bad
    by simp
  also have "\<dots> = parseJsonLdScripts blocks_parse [array_block]
                  @ parseJsonLdScripts blocks_parse [graph_block]
                  @ parseJsonLdScripts blocks_parse [unnamed_recipe_block]"
    using parseJsonLdScripts_append[of blocks_parse "[array_block]" "[graph_block, unnamed_recipe_block]"]
      parseJsonLdScripts_append[of blocks_parse "[graph_block]" "[unnamed_recipe_block]"]
    by simp
  finally show ?thesis using bad a g r by simp
qed

subsection \<open>Instruction steps\<close>









lemma walk_nest_Suc: "walk (Suc d) (JArr [v]) = walk d v"
  by (cases "walk d v") simp_all

lemma walk_nest: "walk (n + d) (nest n v) = walk d v"
  by (induction n) (simp_all add: walk_nest_Suc del: walk.simps)


lemma normalize_text_cases:
  "normalize_text u = JNull
   \<or> (\<exists>s. normalize_text u = JStr s \<and> s \<noteq> [] \<and> s = trim (collapse_ws u))"
  by (simp add: normalize_text_def Let_def)

































lemma value_of_elem_at: "value_of (elem_at a y) = y"
  by (simp add: elem_at_def)





subsection \<open>The locator normalizer\<close>

lemma before_free: "c \<notin> set (before c s)"
  by (auto simp: before_def dest: set_takeWhileD)

lemma before_id: "c \<notin> set s \<Longrightarrow> before c s = s"
  by (auto simp: before_def)

lemma before_append: "c \<notin> set xs \<Longrightarrow> before c (xs @ c # ys) = xs"
  by (induction xs) (auto simp: before_def)

lemma after_append: "c \<notin> set xs \<Longrightarrow> after c (xs @ c # ys) = ys"
  by (induction xs) (auto simp: after_def)

lemma before_before: "before c (before c s) = before c s"
  by (simp add: before_id before_free)

lemma dropWhile_append_hit: "c \<notin> set xs \<Longrightarrow> dropWhile (\<lambda>x. x \<noteq> c) (xs @ c # ys) = c # ys"
  by (induction xs) auto

lemma delimiters_apart:
  "\<not> host_char CHR ''/''" "\<not> host_char CHR ''?''" "\<not> host_char CHR ''#''"
  "\<not> path_char CHR ''?''" "\<not> path_char CHR ''#''" "\<not> query_char CHR ''#''"
  by (simp_all add: host_char_def path_char_def query_char_def letters_def capitals_def
        digit_chars_def)

lemma plain_host_from_chars:
  "plain_host_from start h \<Longrightarrow> c \<in> set h \<Longrightarrow> c = CHR ''.'' \<or> host_char c"
  by (induction start h rule: plain_host_from.induct) (auto split: if_splits)

lemma plain_host_free:
  assumes "plain_host h"
  shows "CHR ''/'' \<notin> set h" and "CHR ''?'' \<notin> set h" and "CHR ''#'' \<notin> set h"
  using plain_host_from_chars[OF assms[unfolded plain_host_def]] delimiters_apart(1,2,3)
  by auto

lemma path_char_free: "list_all path_char p \<Longrightarrow> CHR ''?'' \<notin> set p \<and> CHR ''#'' \<notin> set p"
  using delimiters_apart(4,5) by (auto simp: list_all_iff)

lemma query_char_free: "list_all query_char q \<Longrightarrow> CHR ''#'' \<notin> set q"
  using delimiters_apart(6) by (auto simp: list_all_iff)







lemma main_part_free: "well_formed w \<Longrightarrow> CHR ''#'' \<notin> set (main_part w)"
  using plain_host_free(3)[of "host w"] path_char_free[of "path w"]
  by (auto simp: well_formed_def main_part_def dest: query_char_free split: option.splits)


lemma authority_read:
  assumes "plain_host h" and "p \<noteq> []" and "hd p = CHR ''/''" and "list_all path_char p"
  shows "authority s (h @ p) q = Some \<lparr>scheme = s, host = h, path = p, query = q, fragment = None\<rparr>"
proof -
  obtain t where p: "p = CHR ''/'' # t" using assms(2,3) by (cases p) auto
  have f: "CHR ''/'' \<notin> set h" using assms(1) by (rule plain_host_free)
  have "before CHR ''/'' (h @ p) = h" unfolding p using f by (rule before_append)
  moreover have "dropWhile (\<lambda>x. x \<noteq> CHR ''/'') (h @ p) = p"
    unfolding p using f by (rule dropWhile_append_hit)
  ultimately show ?thesis using assms by (simp add: authority_def)
qed

lemma main_part_read:
  assumes "well_formed w"
  shows "parse_main base (main_part w) = Some (w\<lparr>fragment := None\<rparr>)"
proof -
  let ?a = "scheme w @ ''://'' @ host w @ path w"
  have h: "plain_host (host w)" and p: "path w \<noteq> []" "hd (path w) = CHR ''/''"
      "list_all path_char (path w)"
    and s: "scheme w = ''http'' \<or> scheme w = ''https''"
    and qc: "case query w of None \<Rightarrow> True | Some q \<Rightarrow> list_all query_char q"
    using assms by (simp_all add: well_formed_def)
  have free: "CHR ''?'' \<notin> set ?a"
    using plain_host_free(2)[OF h] path_char_free[OF p(3)] s by auto
  have b: "before CHR ''?'' (main_part w) = ?a"
    using free by (cases "query w") (simp_all add: main_part_def before_id before_append[of _ ?a, simplified])
  have q: "(if CHR ''?'' \<in> set (main_part w) then Some (after CHR ''?'' (main_part w)) else None)
             = query w"
    using free by (cases "query w") (simp_all add: main_part_def after_append[of _ ?a, simplified])
  have au: "authority (scheme w) (host w @ path w) (query w) = Some (w\<lparr>fragment := None\<rparr>)"
    using authority_read[OF h p, of "scheme w" "query w"] by simp
  show ?thesis
    unfolding parse_main_def Let_def b q using s qc au by auto
qed

lemma parse_url_main_part:
  "well_formed w \<Longrightarrow> parse_url base (main_part w) = Some (w\<lparr>fragment := None\<rparr>)"
  by (simp add: parse_url_def main_part_free before_id main_part_read)













section \<open>Properties of the crawl\<close>

subsection \<open>Pagination\<close>

lemma MAX_PAGES_mk_config: "1 \<le> MAX_PAGES (mk_config rw mp cd dd rt)"
  by (simp add: mk_config_def split: option.splits)

lemma queue_list_handler:
  assumes "list_handler parse resolve cfg st req page = Inr st'"
  shows "\<exists>ds nx. queue st' = queue st @ ds @ nx \<and> list_all (\<lambda>d. req_label d = DETAIL) ds
           \<and> (nx = [] \<or> (req_pageNo req < MAX_PAGES cfg
                 \<and> (\<exists>u. nx = [\<lparr>req_url = u, req_label = LIST, req_pageNo = req_pageNo req + 1\<rparr>])))"
proof -
  obtain jsonLinks where j:
    "extractListLinks resolve (parseJsonLdScripts parse (list_blocks page)) (req_url req) = Inr jsonLinks"
    using assms by (auto simp: list_handler_def split: sum.splits)
  define found where "found = findRecipeLinks resolve (seenUrls st) (list_anchors page) (req_url req)"
  define combined where "combined = uniq_str (jsonLinks @ fst found)"
  define limited where "limited = (if RESULTS_WANTED cfg - saved st < int (length combined)
     then slice0 combined (RESULTS_WANTED cfg - saved st) else combined)"
  define ds where "ds = (if collectDetails cfg \<and> limited \<noteq> []
     then map (\<lambda>u. \<lparr>req_url = u, req_label = DETAIL, req_pageNo = 1\<rparr>) limited else [])"
  have d: "list_all (\<lambda>d. req_label d = DETAIL) ds"
    by (auto simp: ds_def list_all_iff)
  from assms show ?thesis
    unfolding list_handler_def j Let_def sum.case
    apply (simp only: found_def[symmetric] combined_def[symmetric] limited_def[symmetric])
    apply (rule exI[of _ ds])
    using d
    by (auto simp: ds_def split: if_splits option.splits)
qed

lemma pages_ok_list_handler:
  assumes "list_handler parse resolve cfg st req page = Inr st'"
      and "pages_ok cfg st" and "req \<in> set (queue st)" and "req_label req = LIST"
  shows "pages_ok cfg st'"
proof -
  obtain ds nx where q: "queue st' = queue st @ ds @ nx"
    and ds: "list_all (\<lambda>d. req_label d = DETAIL) ds"
    and nx: "nx = [] \<or> (req_pageNo req < MAX_PAGES cfg
                 \<and> (\<exists>u. nx = [\<lparr>req_url = u, req_label = LIST, req_pageNo = req_pageNo req + 1\<rparr>]))"
    using queue_list_handler[OF assms(1)] by blast
  have "1 \<le> req_pageNo req"
    using assms(2-4) by (auto simp: pages_ok_def list_all_iff)
  then show ?thesis
    using assms(2) ds nx unfolding pages_ok_def q by (auto simp: list_all_iff)
qed

lemma queue_step_detail:
  "step stack parse resolve cfg st (BeginDetail req page fetch now) = Some st' \<Longrightarrow> queue st' = queue st"
  "step stack parse resolve cfg st (FinishDetail i) = Some st' \<Longrightarrow> queue st' = queue st"
  by (auto simp: step_def split: if_splits sum.splits)

lemma pages_ok_step:
  assumes "step stack parse resolve cfg st ev = Some st'" and "pages_ok cfg st"
  shows "pages_ok cfg st'"
proof (cases ev)
  case (HandleList req page)
  then show ?thesis
    using assms pages_ok_list_handler[of parse resolve cfg st req page]
    by (auto simp: step_def split: if_splits sum.splits)
next
  case (BeginDetail req page fetch now)
  then show ?thesis using assms queue_step_detail(1) by (simp add: pages_ok_def)
next
  case (FinishDetail i)
  then show ?thesis using assms queue_step_detail(2) by (simp add: pages_ok_def)
qed

lemma pages_ok_run:
  "run stack parse resolve cfg st evs = Some st' \<Longrightarrow> pages_ok cfg st \<Longrightarrow>
   pages_ok cfg st'
   \<and> (\<forall>req page. HandleList req page \<in> set evs \<longrightarrow> req_pageNo req \<le> MAX_PAGES cfg)"
proof (induction evs arbitrary: st)
  case Nil
  then show ?case by simp
next
  case (Cons ev evs)
  then obtain st1 where s: "step stack parse resolve cfg st ev = Some st1"
    and r: "run stack parse resolve cfg st1 evs = Some st'"
    by (auto split: option.splits)
  have ok1: "pages_ok cfg st1" using pages_ok_step[OF s Cons.prems(2)] .
  have here: "req_pageNo req \<le> MAX_PAGES cfg" if "ev = HandleList req page" for req page
    using that s Cons.prems(2) by (auto simp: step_def pages_ok_def list_all_iff split: if_splits)
  show ?case using Cons.IH[OF r ok1] here by auto
qed

lemma pages_ok_init: "1 \<le> MAX_PAGES cfg \<Longrightarrow> pages_ok cfg (init cfg startUrl)"
  by (simp add: pages_ok_def init_def)

lemma list_requests_step:
  assumes "step stack parse resolve cfg st ev = Some st'" and "pages_ok cfg st" and "MAX_PAGES cfg = 1"
  shows "list_requests st' = list_requests st"
proof (cases ev)
  case (HandleList req page)
  show ?thesis
  proof (cases "list_handler parse resolve cfg st req page")
    case (Inl e)
    then show ?thesis using assms HandleList by (auto simp: step_def split: if_splits)
  next
    case (Inr s2)
    then have st': "st' = s2" and inq: "req \<in> set (queue st)" and lab: "req_label req = LIST"
      using assms(1) HandleList by (auto simp: step_def split: if_splits)
    obtain ds nx where q: "queue s2 = queue st @ ds @ nx"
      and ds: "list_all (\<lambda>d. req_label d = DETAIL) ds"
      and nx: "nx = [] \<or> (req_pageNo req < MAX_PAGES cfg
                 \<and> (\<exists>u. nx = [\<lparr>req_url = u, req_label = LIST, req_pageNo = req_pageNo req + 1\<rparr>]))"
      using queue_list_handler[OF Inr] by blast
    have "1 \<le> req_pageNo req"
      using assms(2) inq lab by (auto simp: pages_ok_def list_all_iff)
    then have "nx = []" using nx assms(3) by auto
    moreover have "filter (\<lambda>r. req_label r = LIST) ds = []"
      using ds by (auto simp: list_all_iff filter_empty_conv)
    ultimately show ?thesis by (simp add: list_requests_def st' q)
  qed
next
  case (BeginDetail req page fetch now)
  then show ?thesis using assms queue_step_detail(1) by (simp add: list_requests_def)
next
  case (FinishDetail i)
  then show ?thesis using assms queue_step_detail(2) by (simp add: list_requests_def)
qed

lemma list_requests_run:
  "run stack parse resolve cfg st evs = Some st' \<Longrightarrow> pages_ok cfg st \<Longrightarrow> MAX_PAGES cfg = 1 \<Longrightarrow>
   list_requests st' = list_requests st"
proof (induction evs arbitrary: st)
  case Nil
  then show ?case by simp
next
  case (Cons ev evs)
  then obtain st1 where s: "step stack parse resolve cfg st ev = Some st1"
    and r: "run stack parse resolve cfg st1 evs = Some st'"
    by (auto split: option.splits)
  show ?case
    using Cons.IH[OF r pages_ok_step[OF s Cons.prems(2)] Cons.prems(3)]
      list_requests_step[OF s Cons.prems(2,3)] by simp
qed

text \<open>
  Claim C6.  In every run from the start request, whatever the pages answer and in
  whatever order the handlers run: every listing request handed to the queue, and so
  every listing page a handler visits, has a page number of at most \<^verbatim>\<open>MAX_PAGES\<close>; and
  with \<^verbatim>\<open>MAX_PAGES = 1\<close> the start request stays the only listing request, so the
  traversal ends with the first page.  (\<open>queue_list_handler\<close> is the single step: a
  listing handler hands on a next page only when its own page number is below
  \<^verbatim>\<open>MAX_PAGES\<close>.)
\<close>
theorem listing_pages_bounded:
  assumes "run stack parse resolve (mk_config rw mp cd dd rt) (init (mk_config rw mp cd dd rt) startUrl) evs
             = Some st"
  shows "(\<forall>r\<in>set (queue st). req_label r = LIST \<longrightarrow> req_pageNo r \<le> MAX_PAGES (mk_config rw mp cd dd rt))
       \<and> (\<forall>req page. HandleList req page \<in> set evs
             \<longrightarrow> req_pageNo req \<le> MAX_PAGES (mk_config rw mp cd dd rt))
       \<and> (MAX_PAGES (mk_config rw mp cd dd rt) = 1
             \<longrightarrow> list_requests st = [\<lparr>req_url = startUrl, req_label = LIST, req_pageNo = 1\<rparr>])"
proof -
  let ?cfg = "mk_config rw mp cd dd rt"
  have i: "pages_ok ?cfg (init ?cfg startUrl)"
    by (rule pages_ok_init) (rule MAX_PAGES_mk_config)
  have "pages_ok ?cfg st"
    and ev: "\<forall>req page. HandleList req page \<in> set evs \<longrightarrow> req_pageNo req \<le> MAX_PAGES ?cfg"
    using pages_ok_run[OF assms i] by auto
  then have q: "\<forall>r\<in>set (queue st). req_label r = LIST \<longrightarrow> req_pageNo r \<le> MAX_PAGES ?cfg"
    by (auto simp: pages_ok_def list_all_iff)
  have "MAX_PAGES ?cfg = 1 \<longrightarrow> list_requests st = list_requests (init ?cfg startUrl)"
    using list_requests_run[OF assms i] by simp
  then show ?thesis using q ev by (simp add: list_requests_def init_def)
qed

text \<open>The theorem at a run with \<^verbatim>\<open>max_pages = 1\<close>: the first page has a next-page link and
  one of fifty wanted records is saved, and no second listing request is made.\<close>

theorem listing_pages_bounded_witness:
  "\<exists>st. run 1000 example_parse absolute_only
          (mk_config (Some 50) (Some 1) (Some False) True ''vegetarian'')
          (init (mk_config (Some 50) (Some 1) (Some False) True ''vegetarian'')
             ''https://www.epicurious.com/menus'')
          [HandleList \<lparr>req_url = ''https://www.epicurious.com/menus'', req_label = LIST,
                       req_pageNo = 1\<rparr> soups_page_1] = Some st
        \<and> saved st = 1
        \<and> list_requests st =
            [\<lparr>req_url = ''https://www.epicurious.com/menus'', req_label = LIST, req_pageNo = 1\<rparr>]"
proof -
  have "map_option saved (run 1000 example_parse absolute_only
          (mk_config (Some 50) (Some 1) (Some False) True ''vegetarian'')
          (init (mk_config (Some 50) (Some 1) (Some False) True ''vegetarian'')
             ''https://www.epicurious.com/menus'')
          [HandleList \<lparr>req_url = ''https://www.epicurious.com/menus'', req_label = LIST,
                       req_pageNo = 1\<rparr> soups_page_1]) = Some 1"
    by code_simp
  then obtain st where r: "run 1000 example_parse absolute_only
          (mk_config (Some 50) (Some 1) (Some False) True ''vegetarian'')
          (init (mk_config (Some 50) (Some 1) (Some False) True ''vegetarian'')
             ''https://www.epicurious.com/menus'')
          [HandleList \<lparr>req_url = ''https://www.epicurious.com/menus'', req_label = LIST,
                       req_pageNo = 1\<rparr> soups_page_1] = Some st"
    and s: "saved st = 1"
    by blast
  have "MAX_PAGES (mk_config (Some 50) (Some 1) (Some False) True ''vegetarian'') = 1"
    by (simp add: mk_config_def)
  then show ?thesis using listing_pages_bounded[OF r] r s by blast
qed

subsection \<open>What holds of the title\<close>

text \<open>The title a detail record gets is truthy, so a string title is never empty; the
  title of a URLs-only record is a non-empty string.\<close>

lemma truthy_js_or: "truthy b \<Longrightarrow> truthy (js_or a b)"
  by (simp add: js_or_def)

lemma final_title_truthy: "truthy (final_title recipe url)"
  by (simp add: final_title_def truthy_js_or)

lemma final_title_string: "final_title recipe url = JStr s \<Longrightarrow> s \<noteq> []"
  using final_title_truthy[of recipe url] by auto

lemma normalize_JStr_cases:
  "normalize (JStr t) = JNull \<or> (\<exists>s. normalize (JStr t) = JStr s \<and> s \<noteq> [])"
  using normalize_text_cases[of t] by auto

lemma minimal_record_title:
  "\<exists>s. get_prop (minimal_record cfg u) ''title'' = JStr s \<and> s \<noteq> []"
  using normalize_JStr_cases[of "slug u"]
  by (auto simp: minimal_record_def js_or_def simp del: normalize.simps)

subsection \<open>What holds of the budget\<close>

text \<open>A listing handler that starts within the budget takes at most the remaining budget
  and stays within it; a detail handler that starts with the budget used up does
  nothing; a run that only collects URLs never exceeds the budget.\<close>

lemma slice0_length: "0 \<le> n \<Longrightarrow> int (length (slice0 xs n)) \<le> n"
  by (simp add: slice0_def)

lemma list_handler_budget:
  assumes "list_handler parse resolve cfg st req page = Inr st'"
      and "saved st \<le> RESULTS_WANTED cfg"
  shows "saved st' \<le> RESULTS_WANTED cfg
       \<and> int (length (dataset st')) - int (length (dataset st)) = saved st' - saved st
       \<and> int (length (queue st')) - int (length (queue st)) \<le> RESULTS_WANTED cfg - saved st + 1
       \<and> pushing st' = pushing st"
proof -
  obtain jsonLinks where j:
    "extractListLinks resolve (parseJsonLdScripts parse (list_blocks page)) (req_url req) = Inr jsonLinks"
    using assms by (auto simp: list_handler_def split: sum.splits)
  define found where "found = findRecipeLinks resolve (seenUrls st) (list_anchors page) (req_url req)"
  define combined where "combined = uniq_str (jsonLinks @ fst found)"
  define limited where "limited = (if RESULTS_WANTED cfg - saved st < int (length combined)
     then slice0 combined (RESULTS_WANTED cfg - saved st) else combined)"
  have l: "int (length limited) \<le> RESULTS_WANTED cfg - saved st"
    using assms(2) slice0_length[of "RESULTS_WANTED cfg - saved st" combined]
    by (auto simp: limited_def)
  from assms(1) show ?thesis
    unfolding list_handler_def j Let_def sum.case
    apply (simp only: found_def[symmetric] combined_def[symmetric] limited_def[symmetric])
    using l
    by (auto split: if_splits option.splits)
qed

lemma list_handler_urls_only:
  assumes "list_handler parse resolve cfg st req page = Inr st'"
      and "\<not> collectDetails cfg" and "urls_only_ok cfg st"
  shows "urls_only_ok cfg st'"
proof -
  obtain ds nx where q: "queue st' = queue st @ ds @ nx"
    and nx: "nx = [] \<or> (req_pageNo req < MAX_PAGES cfg
                 \<and> (\<exists>u. nx = [\<lparr>req_url = u, req_label = LIST, req_pageNo = req_pageNo req + 1\<rparr>]))"
    and ds: "list_all (\<lambda>d. req_label d = DETAIL) ds"
    using queue_list_handler[OF assms(1)] by blast
  have b: "saved st' \<le> RESULTS_WANTED cfg
       \<and> int (length (dataset st')) - int (length (dataset st)) = saved st' - saved st
       \<and> pushing st' = pushing st"
    using list_handler_budget[OF assms(1)] assms(3) by (simp add: urls_only_ok_def)
  have dsn: "ds = []"
  proof -
    obtain jsonLinks where j:
      "extractListLinks resolve (parseJsonLdScripts parse (list_blocks page)) (req_url req) = Inr jsonLinks"
      using assms(1) by (auto simp: list_handler_def split: sum.splits)
    have "length (queue st') \<le> Suc (length (queue st))"
      using assms(1,2) unfolding list_handler_def j Let_def sum.case
      by (auto split: if_splits option.splits)
    then have "length ds + length nx \<le> 1" by (simp add: q)
    moreover have "filter (\<lambda>r. req_label r = DETAIL) (queue st') = filter (\<lambda>r. req_label r = DETAIL) (queue st)"
      using assms(1,2) unfolding list_handler_def j Let_def sum.case
      by (auto split: if_splits option.splits)
    then have "filter (\<lambda>r. req_label r = DETAIL) (ds @ nx) = []"
      by (simp add: q)
    then have "filter (\<lambda>r. req_label r = DETAIL) ds = []" by simp
    then show ?thesis using ds by (cases ds) (auto simp: list_all_iff)
  qed
  show ?thesis
    using assms(3) b nx unfolding urls_only_ok_def q dsn by (auto simp: list_all_iff)
qed

lemma step_urls_only:
  assumes "step stack parse resolve cfg st ev = Some st'" and "\<not> collectDetails cfg"
      and "urls_only_ok cfg st"
  shows "urls_only_ok cfg st'"
proof (cases ev)
  case (HandleList req page)
  then show ?thesis
    using assms list_handler_urls_only[of parse resolve cfg st req page]
    by (auto simp: step_def split: if_splits sum.splits)
next
  case (BeginDetail req page fetch now)
  then show ?thesis
    using assms by (auto simp: step_def urls_only_ok_def list_all_iff split: if_splits)
next
  case (FinishDetail i)
  then show ?thesis
    using assms by (auto simp: step_def urls_only_ok_def split: if_splits)
qed

lemma run_urls_only:
  "run stack parse resolve cfg st evs = Some st' \<Longrightarrow> \<not> collectDetails cfg \<Longrightarrow> urls_only_ok cfg st
   \<Longrightarrow> urls_only_ok cfg st'"
proof (induction evs arbitrary: st)
  case Nil
  then show ?case by simp
next
  case (Cons ev evs)
  then obtain st1 where s: "step stack parse resolve cfg st ev = Some st1"
    and r: "run stack parse resolve cfg st1 evs = Some st'"
    by (auto split: option.splits)
  show ?case using Cons.IH[OF r Cons.prems(2) step_urls_only[OF s Cons.prems(2,3)]] .
qed

lemma urls_only_budget:
  assumes "run stack parse resolve cfg (init cfg startUrl) evs = Some st"
      and "\<not> collectDetails cfg" and "0 \<le> RESULTS_WANTED cfg"
  shows "saved st \<le> RESULTS_WANTED cfg \<and> int (length (dataset st)) = saved st"
proof -
  have "urls_only_ok cfg (init cfg startUrl)"
    using assms(3) by (simp add: urls_only_ok_def init_def)
  then show ?thesis using run_urls_only[OF assms(1,2)] by (simp add: urls_only_ok_def)
qed

lemma detail_guard:
  "RESULTS_WANTED cfg \<le> saved st \<Longrightarrow>
   step stack parse resolve cfg st (BeginDetail req page fetch now) = Some st' \<Longrightarrow> st' = st"
  by (auto simp: step_def split: if_splits)

subsection \<open>What holds of the seen set\<close>

text \<open>Within one listing page the links of both sources are united without repetition;
  a link found in the markup is returned only if it was not seen before, and is seen
  from then on.\<close>

lemma dup_free_strs: "distinct js \<Longrightarrow> dup_free (map (\<lambda>s. Prim (JStr s)) js)"
  by (induction js) (auto simp: fresh_iff)

lemma list_ok_strs: "distinct js \<Longrightarrow> [] \<notin> set js \<Longrightarrow> list_ok (map (\<lambda>s. Prim (JStr s)) js)"
  by (auto simp: list_ok_def list_all_iff dup_free_strs)

lemma uniq_str_union:
  assumes "distinct js" and "[] \<notin> set js" and "set hs \<subseteq> set js"
  shows "uniq_str (js @ hs) = js"
proof -
  let ?p = "\<lambda>s. Prim (JStr s)"
  have c: "list_ok (map ?p js)" using assms(1,2) by (rule list_ok_strs)
  have "filter (fresh (map ?p js)) (map ?p hs) = []"
    using assms(3) by (auto simp: filter_empty_conv fresh_iff)
  then have "uniq (map ?p js @ map ?p hs) = map ?p js"
    by (simp add: uniq_append uniq_ok[OF c]) (simp add: uniq_def)
  then show ?thesis by (simp add: uniq_str_def comp_def)
qed

lemma link_step_seen:
  assumes "link_step resolve base (urls, Some seen) el = (urls', s')"
      and "distinct urls" and "set urls \<subseteq> seen"
  shows "\<exists>new. urls' = urls @ new \<and> distinct urls' \<and> set new \<inter> seen = {}
           \<and> s' = Some (seen \<union> set new)"
  using assms
  by (auto simp: link_step_def Let_def split: option.splits if_splits)

lemma findRecipeLinks_seen_aux:
  "foldl (link_step resolve base) (urls, Some seen) anchors = (urls', s') \<Longrightarrow>
   distinct urls \<Longrightarrow> set urls \<subseteq> seen \<Longrightarrow>
   \<exists>new. urls' = urls @ new \<and> distinct urls' \<and> set new \<inter> seen = {} \<and> s' = Some (seen \<union> set new)"
proof (induction anchors arbitrary: urls seen)
  case Nil
  then show ?case by simp
next
  case (Cons el anchors)
  obtain u1 s1 where st: "link_step resolve base (urls, Some seen) el = (u1, s1)"
    by (cases "link_step resolve base (urls, Some seen) el") auto
  obtain n1 where n1: "u1 = urls @ n1" "distinct u1" "set n1 \<inter> seen = {}"
      "s1 = Some (seen \<union> set n1)"
    using link_step_seen[OF st Cons.prems(2,3)] by blast
  have f: "foldl (link_step resolve base) (u1, Some (seen \<union> set n1)) anchors = (urls', s')"
    using Cons.prems(1) st n1(4) by simp
  have sub: "set u1 \<subseteq> seen \<union> set n1" using n1(1) Cons.prems(3) by auto
  obtain n2 where n2: "urls' = u1 @ n2" "distinct urls'" "set n2 \<inter> (seen \<union> set n1) = {}"
      "s' = Some (seen \<union> set n1 \<union> set n2)"
    using Cons.IH[OF f n1(2) sub] by blast
  show ?case
    by (rule exI[of _ "n1 @ n2"]) (use n1 n2 in auto)
qed

lemma findRecipeLinks_dedup:
  assumes "findRecipeLinks resolve (Some seen) anchors base = (urls, s')"
  shows "distinct urls \<and> set urls \<inter> seen = {} \<and> s' = Some (seen \<union> set urls)"
  using findRecipeLinks_seen_aux[of resolve base "[]" seen anchors urls s'] assms
  by (auto simp: findRecipeLinks_def)

subsection \<open>What the extractors build\<close>

text \<open>The record read from the markup is a partial record.  In the record read from the
  structured metadata the instructions and the tags are de-duplicated and every list holds
  truthy members only; the ingredients are filtered but not passed through \<^verbatim>\<open>uniq\<close>.\<close>

lemma parseHtmlRecipe_partial_record: "partial_record (parseHtmlRecipe m)"
  by (simp add: partial_record_def parseHtmlRecipe_def list_ok_uniq)

lemma truthy_elems: "list_all truthy vs \<Longrightarrow> list_all truthy_elem (elems origin field vs)"
proof -
  have "truthy v \<Longrightarrow> truthy_elem (elem_at a v)" for a v by (simp add: elem_at_def)
  then show "list_all truthy vs \<Longrightarrow> list_all truthy_elem (elems origin field vs)"
    by (auto simp: elems_def list_all_iff in_set_enumerate_eq)
qed

lemma recipe_of_item_lists:
  assumes "recipe_of_item origin stack item = Inr r"
  shows "list_ok (or_empty (instructions r)) \<and> list_ok (or_empty (tags r))
         \<and> list_all truthy_elem (or_empty (ingredients r))"
proof (cases "collectInstructionLines origin stack (get_prop item ''recipeInstructions'')")
  case (Inl e)
  then show ?thesis using assms by (simp add: recipe_of_item_def)
next
  case (Inr steps)
  note s = this
  show ?thesis
  proof (cases "author_value (get_prop item ''author'')")
    case (Inl e)
    then show ?thesis using assms s by (simp add: recipe_of_item_def)
  next
    case (Inr author)
    have i: "instructions r = Some steps"
      using assms s Inr by (auto simp: recipe_of_item_def Let_def)
    have t: "tags r = Some (filter truthy_elem (uniq (elems origin ''tags''
                 (map normalize (arrify (get_prop item ''recipeCuisine''))
                  @ map normalize (arrify (get_prop item ''recipeCategory''))
                  @ map normalize (keywords_of (get_prop item ''keywords''))))))"
      using assms s Inr by (auto simp: recipe_of_item_def Let_def)
    have g: "ingredients r = Some (elems origin ''ingredients''
                 (filter truthy (map normalize (arrify (get_prop item ''recipeIngredient'')))))"
      using assms s Inr by (auto simp: recipe_of_item_def Let_def)
    obtain ys where "steps = uniq ys"
      using s by (auto simp: collectInstructionLines_def split: sum.splits)
    then have "list_ok steps" by (simp add: list_ok_uniq)
    moreover have "list_ok (filter truthy_elem (uniq xs))" for xs
      by (rule list_ok_filter) (rule list_ok_uniq)
    moreover have "list_all truthy_elem (elems origin ''ingredients'' (filter truthy vs))" for vs
      by (rule truthy_elems) (simp add: list_all_iff)
    ultimately show ?thesis by (simp only: i t g or_empty.simps)
  qed
qed

subsection \<open>Runs that break a claim\<close>

text \<open>
  Claim C2 fails for links that come from the structured metadata: \<^verbatim>\<open>seenUrls\<close> is
  consulted and extended only in \<^verbatim>\<open>findRecipeLinks\<close>, never for the result of
  \<^verbatim>\<open>extractListLinks\<close>.  With \<^verbatim>\<open>dedupe\<close> on and \<^verbatim>\<open>collectDetails\<close> off, two listing
  pages whose metadata lists the same recipe put the same locator into the dataset twice.
\<close>
theorem dedup_misses_metadata_links:
  "dedupe (mk_config (Some 50) (Some 10) (Some False) True ''vegetarian'')
   \<and> map_option (\<lambda>st. map (\<lambda>r. get_prop r ''url'') (dataset st))
       (run 1000 example_parse absolute_only
          (mk_config (Some 50) (Some 10) (Some False) True ''vegetarian'')
          (init (mk_config (Some 50) (Some 10) (Some False) True ''vegetarian'')
             ''https://www.epicurious.com/menus'')
          [HandleList \<lparr>req_url = ''https://www.epicurious.com/menus'', req_label = LIST,
                       req_pageNo = 1\<rparr> menu_page_1,
           HandleList \<lparr>req_url = ''https://www.epicurious.com/menus?page=2'', req_label = LIST,
                       req_pageNo = 2\<rparr> menu_page_2])
     = Some [JStr ''https://www.epicurious.com/recipes/food/views/soup'',
             JStr ''https://www.epicurious.com/recipes/food/views/soup'']"
  by code_simp

text \<open>
  Claim C3 fails when detail handlers overlap.  With \<^verbatim>\<open>results_wanted = 1\<close>, the first
  listing page hands on one recipe and the next page, the second listing page hands on
  another recipe (nothing is saved yet); both detail handlers pass the budget check
  while \<^verbatim>\<open>saved\<close> is 0, and both push their record: two records for a budget of one.
\<close>
theorem budget_exceeded_by_overlapping_details:
  "RESULTS_WANTED (mk_config (Some 1) (Some 10) None True ''vegetarian'') = 1
   \<and> map_option (\<lambda>st. (saved st, map (\<lambda>r. get_prop r ''url'') (dataset st)))
       (run 1000 example_parse absolute_only
          (mk_config (Some 1) (Some 10) None True ''vegetarian'')
          (init (mk_config (Some 1) (Some 10) None True ''vegetarian'')
             ''https://www.epicurious.com/menus'')
          [HandleList \<lparr>req_url = ''https://www.epicurious.com/menus'', req_label = LIST,
                       req_pageNo = 1\<rparr> soups_page_1,
           HandleList \<lparr>req_url = ''https://www.epicurious.com/menus?page=2'', req_label = LIST,
                       req_pageNo = 2\<rparr> soups_page_2,
           BeginDetail \<lparr>req_url = ''https://www.epicurious.com/recipes/food/views/soup'',
                        req_label = DETAIL, req_pageNo = 1\<rparr>
             soup_page (\<lambda>u. Threw) ''2025-01-01T00:00:00.000Z'',
           BeginDetail \<lparr>req_url = ''https://www.epicurious.com/recipes/food/views/stew'',
                        req_label = DETAIL, req_pageNo = 1\<rparr>
             stew_page (\<lambda>u. Threw) ''2025-01-01T00:00:00.000Z'',
           FinishDetail 0, FinishDetail 0])
     = Some (2, [JStr ''https://www.epicurious.com/recipes/food/views/soup'',
                 JStr ''https://www.epicurious.com/recipes/food/views/stew''])"
  by code_simp

text \<open>
  Claim C7 fails for a recipe whose metadata gives an empty array as its name:
  \<^verbatim>\<open>normalize([])\<close> is \<^verbatim>\<open>[]\<close>, which is truthy, so neither the heading found in the markup
  nor the fallback from the locator replaces it, and the record is pushed with the empty
  array as its title.
\<close>
theorem empty_array_title_emitted:
  "map_option (\<lambda>st. map (\<lambda>r. get_prop r ''title'') (dataset st))
       (run 1000 example_parse absolute_only
          (mk_config (Some 50) (Some 10) None True ''vegetarian'')
          (init (mk_config (Some 50) (Some 10) None True ''vegetarian'')
             ''https://www.epicurious.com/menus'')
          [HandleList \<lparr>req_url = ''https://www.epicurious.com/menus'', req_label = LIST,
                       req_pageNo = 1\<rparr> unnamed_listing,
           BeginDetail \<lparr>req_url = ''https://www.epicurious.com/recipes/food/views/tomato-soup'',
                        req_label = DETAIL, req_pageNo = 1\<rparr>
             unnamed_page (\<lambda>u. Threw) ''2025-01-01T00:00:00.000Z'',
           FinishDetail 0])
     = Some [JArr []]"
  by code_simp

end
